theory Spec2Isabelle
  imports
    Complex_Main
    "HOL-Library.Product_Lexorder"
    "HOL-Library.Char_ord"
    "HOL-Library.List_Lexorder"
    "HOL-Library.Multiset"
    "HOL-Library.Log_Nat"
begin

chapter \<open>Graphs and shortest paths\<close>

section \<open>Data model of roteamento\_entregas.py\<close>

text \<open>
  A Python \<^verbatim>\<open>int\<close> is an \<^typ>\<open>int\<close>. A Python number that may be a
  \<^verbatim>\<open>float\<close> is the \<^typ>\<open>real\<close> it denotes, and the sentinel
  \<^verbatim>\<open>float('inf')\<close> is the separate constructor \<open>Infinito\<close>. An operation whose
  result is a \<^verbatim>\<open>float\<close> rounds it to the nearest double (section ``Double-precision
  arithmetic''): the division \<^verbatim>\<open>distancia / 50\<close> and the subtraction from
  \<^verbatim>\<open>horas_disponiveis\<close> in the allocator, and the products and sums of the searches on
  scaled graphs. The search functions of section ``The four shortest-path functions'' add
  exactly; that is what the program computes as long as no sum is rounded, which is the
  case on the integer distance tables (section ``Searches in double precision'').
  Node identifiers are any linearly ordered type (Python compares the strings when two
  heap entries have the same distance); the concrete tables use \<^typ>\<open>string\<close>.
\<close>

datatype distancia = Km real | Infinito

datatype erro = KeyError | IndexError

text \<open>
  The adjacency-list graph is a \<^verbatim>\<open>dict\<close> from a node to a list of
  \<^verbatim>\<open>(vizinho, peso)\<close>: an association list in insertion order, read with
  \<^verbatim>\<open>grafo.get(no, [])\<close>.
\<close>

type_synonym 'n grafo = "('n \<times> ('n \<times> real) list) list"

type_synonym 'n fronteira = "(real \<times> 'n) list"

definition grafo_get :: "'n grafo \<Rightarrow> 'n \<Rightarrow> ('n \<times> real) list" where
  "grafo_get grafo no = (case map_of grafo no of None \<Rightarrow> [] | Some adj \<Rightarrow> adj)"

section \<open>Double-precision arithmetic\<close>

text \<open>
  A Python \<^verbatim>\<open>float\<close> is an IEEE 754 binary64 number: \<open>m * 2 ^ e\<close> with an integer
  \<open>m\<close> of at most 53 bits and \<open>e \<ge> -1074\<close>. The result of \<^verbatim>\<open>+\<close>, \<^verbatim>\<open>-\<close>,
  \<^verbatim>\<open>*\<close> and \<^verbatim>\<open>/\<close> is the exact result rounded to the nearest such number, ties
  to the one with even \<open>m\<close>; the true division of two \<^verbatim>\<open>int\<close>s is rounded the same
  way. \<open>arredondar\<close> is that rounding: \<open>expoente x\<close> is the integer \<open>E\<close> with
  \<open>2 ^ E \<le> x < 2 ^ (E + 1)\<close>, the spacing of the doubles around \<open>x\<close> is
  \<open>2 ^ (E - 52)\<close> and never less than \<open>2 ^ -1074\<close>, and \<open>x\<close> is rounded to a multiple
  of the spacing. Values beyond the largest double (about \<open>1.8e308\<close>), where Python gives
  \<^verbatim>\<open>inf\<close> or raises \<^verbatim>\<open>OverflowError\<close>, are not modelled: the exponent is not
  bounded from above. An \<^verbatim>\<open>int\<close> operand of a mixed operation is converted to a double
  first; the conversion is exact below \<open>2 ^ 53\<close>, and the operands here (hours, distances,
  the speed 50) are doubles or such integers. Comparisons are exact in Python, for two
  doubles as for a double and an \<^verbatim>\<open>int\<close>.
\<close>

definition pot2 :: "int \<Rightarrow> real" where
  "pot2 e = (if 0 \<le> e then 2 ^ nat e else 1 / 2 ^ nat (- e))"

definition expoente :: "real \<Rightarrow> int" where
  "expoente x =
     (if 1 \<le> x then bitlen \<lfloor>x\<rfloor> - 1 else - bitlen (\<lceil>1 / x\<rceil> - 1))"

definition inteiro_par :: "real \<Rightarrow> int" where
  "inteiro_par x =
     (let f = \<lfloor>x\<rfloor>; r = x - of_int f in
      if r < 1 / 2 then f else if 1 / 2 < r then f + 1 else if even f then f else f + 1)"

definition arredondar :: "real \<Rightarrow> real" where
  "arredondar x =
     (if x = 0 then 0
      else let e = max (expoente \<bar>x\<bar> - 52) (- 1074) in
        of_int (inteiro_par (x / pot2 e)) * pot2 e)"

definition float_add :: "real \<Rightarrow> real \<Rightarrow> real" where
  "float_add a b = arredondar (a + b)"

definition float_sub :: "real \<Rightarrow> real \<Rightarrow> real" where
  "float_sub a b = arredondar (a - b)"

definition float_mul :: "real \<Rightarrow> real \<Rightarrow> real" where
  "float_mul a b = arredondar (a * b)"

definition float_div :: "real \<Rightarrow> real \<Rightarrow> real" where
  "float_div a b = arredondar (a / b)"

lemma pot2_powr: "pot2 e = 2 powr (real_of_int e)"
proof (cases "0 \<le> e")
  case True
  then have e: "real_of_int e = real (nat e)" by simp
  have "(2::real) powr real (nat e) = 2 ^ nat e" by (rule powr_realpow) simp
  then show ?thesis using True unfolding pot2_def e by simp
next
  case False
  then have e: "real_of_int e = - real (nat (- e))" by simp
  have p: "(2::real) powr real (nat (- e)) = 2 ^ nat (- e)" by (rule powr_realpow) simp
  have "2 powr real_of_int e = 2 powr (- real (nat (- e)))" by (simp only: e)
  also have "\<dots> = 1 / 2 powr real (nat (- e))" by (rule powr_minus_divide)
  also have "\<dots> = 1 / 2 ^ nat (- e)" by (simp only: p)
  also have "\<dots> = pot2 e" using False unfolding pot2_def by simp
  finally show ?thesis by simp
qed

lemma pot2_pos: "0 < pot2 e"
  unfolding pot2_powr by simp

lemma pot2_add: "pot2 (a + b) = pot2 a * pot2 b"
  unfolding pot2_powr by (simp add: powr_add)

lemma pot2_nat: "pot2 (int n) = 2 ^ n"
  unfolding pot2_def by simp

lemma pot2_mono: "a \<le> b \<Longrightarrow> pot2 a \<le> pot2 b"
  unfolding pot2_powr by simp

lemma pot2_less: "pot2 a < pot2 b \<Longrightarrow> a < b"
  unfolding pot2_powr by simp

lemma real_of_int_pow2: "real_of_int (2 ^ n) = (2::real) ^ n"
  by simp

lemma expoente_ge1:
  fixes x :: real
  assumes "1 \<le> x"
  shows "2 ^ nat (bitlen \<lfloor>x\<rfloor> - 1) \<le> x" and "x < 2 ^ nat (bitlen \<lfloor>x\<rfloor>)"
    and "0 \<le> bitlen \<lfloor>x\<rfloor> - 1"
proof -
  from assms have f: "0 < \<lfloor>x\<rfloor>" by simp
  note bb = bitlen_bounds [OF f]
  from bb have "real_of_int (2 ^ nat (bitlen \<lfloor>x\<rfloor> - 1)) \<le> real_of_int \<lfloor>x\<rfloor>"
    by (intro of_int_le_iff [THEN iffD2]) simp
  also have "\<dots> \<le> x" by (rule of_int_floor_le)
  finally show "2 ^ nat (bitlen \<lfloor>x\<rfloor> - 1) \<le> x" unfolding real_of_int_pow2 .
  from bb have "\<lfloor>x\<rfloor> + 1 \<le> 2 ^ nat (bitlen \<lfloor>x\<rfloor>)" by simp
  then have "real_of_int (\<lfloor>x\<rfloor> + 1) \<le> real_of_int (2 ^ nat (bitlen \<lfloor>x\<rfloor>))"
    by (rule of_int_le_iff [THEN iffD2])
  moreover have "x < real_of_int (\<lfloor>x\<rfloor> + 1)" by linarith
  ultimately show "x < 2 ^ nat (bitlen \<lfloor>x\<rfloor>)" unfolding real_of_int_pow2 by linarith
  show "0 \<le> bitlen \<lfloor>x\<rfloor> - 1" using f by (simp add: bitlen_alt_def)
qed

lemma expoente_gt1:
  fixes q :: real
  assumes "1 < q"
  shows "q \<le> 2 ^ nat (bitlen (\<lceil>q\<rceil> - 1))" and "2 ^ nat (bitlen (\<lceil>q\<rceil> - 1) - 1) < q"
    and "0 < bitlen (\<lceil>q\<rceil> - 1)"
proof -
  from assms have c: "0 < \<lceil>q\<rceil> - 1" by linarith
  note bb = bitlen_bounds [OF c]
  from bb have "\<lceil>q\<rceil> \<le> 2 ^ nat (bitlen (\<lceil>q\<rceil> - 1))" by simp
  then have "real_of_int \<lceil>q\<rceil> \<le> real_of_int (2 ^ nat (bitlen (\<lceil>q\<rceil> - 1)))"
    by (rule of_int_le_iff [THEN iffD2])
  with le_of_int_ceiling [of q] show "q \<le> 2 ^ nat (bitlen (\<lceil>q\<rceil> - 1))"
    unfolding real_of_int_pow2 by (rule order_trans)
  from bb have "real_of_int (2 ^ nat (bitlen (\<lceil>q\<rceil> - 1) - 1)) \<le> real_of_int (\<lceil>q\<rceil> - 1)"
    by (intro of_int_le_iff [THEN iffD2]) simp
  moreover have "real_of_int (\<lceil>q\<rceil> - 1) < q" by linarith
  ultimately show "2 ^ nat (bitlen (\<lceil>q\<rceil> - 1) - 1) < q"
    unfolding real_of_int_pow2 by (rule le_less_trans)
  show "0 < bitlen (\<lceil>q\<rceil> - 1)" using c by (simp add: bitlen_alt_def)
qed

lemma expoente_limites:
  assumes "0 < x"
  shows "pot2 (expoente x) \<le> x" and "x < pot2 (expoente x + 1)"
proof -
  show "pot2 (expoente x) \<le> x"
  proof (cases "1 \<le> x")
    case True
    from expoente_ge1(1,3) [OF True] show ?thesis
      using True unfolding expoente_def pot2_def by simp
  next
    case False
    define q where "q = 1 / x"
    have q: "1 < q" using False assms unfolding q_def by simp
    have x: "x = 1 / q" unfolding q_def by simp
    let ?b = "bitlen (\<lceil>q\<rceil> - 1)"
    from expoente_gt1(1) [OF q] q have "1 / 2 ^ nat ?b \<le> 1 / q"
      by (intro divide_left_mono) simp_all
    moreover have "pot2 (- ?b) = 1 / 2 ^ nat ?b"
      using expoente_gt1(3) [OF q] unfolding pot2_def by simp
    moreover have "expoente x = - ?b" using False unfolding expoente_def q_def by simp
    ultimately show ?thesis unfolding x by simp
  qed
  show "x < pot2 (expoente x + 1)"
  proof (cases "1 \<le> x")
    case True
    have "pot2 (bitlen \<lfloor>x\<rfloor> - 1 + 1) = 2 ^ nat (bitlen \<lfloor>x\<rfloor>)"
      using bitlen_nonneg [of "\<lfloor>x\<rfloor>"] unfolding pot2_def by simp
    with expoente_ge1(2) [OF True] show ?thesis
      using True unfolding expoente_def by simp
  next
    case False
    define q where "q = 1 / x"
    have q: "1 < q" using False assms unfolding q_def by simp
    have x: "x = 1 / q" unfolding q_def by simp
    let ?b = "bitlen (\<lceil>q\<rceil> - 1)"
    note b = expoente_gt1(3) [OF q]
    from expoente_gt1(2) [OF q] q have "1 / q < 1 / 2 ^ nat (?b - 1)"
      by (intro divide_strict_left_mono mult_pos_pos) simp_all
    moreover have "pot2 (- ?b + 1) = 1 / 2 ^ nat (?b - 1)"
    proof (cases "?b = 1")
      case True
      then show ?thesis unfolding pot2_def by simp
    next
      case False
      with b have "\<not> 0 \<le> - ?b + 1" "- (- ?b + 1) = ?b - 1" by simp_all
      then show ?thesis unfolding pot2_def by simp
    qed
    moreover have "expoente x = - ?b" using False unfolding expoente_def q_def by simp
    ultimately show ?thesis unfolding x by simp
  qed
qed

lemma inteiro_par_of_int: "inteiro_par (real_of_int n) = n"
  unfolding inteiro_par_def by simp

lemma inteiro_par_nonneg: "0 \<le> x \<Longrightarrow> 0 \<le> inteiro_par x"
  unfolding inteiro_par_def Let_def by (auto simp: add_nonneg_nonneg)

lemma arredondar_nonneg:
  assumes "0 \<le> x"
  shows "0 \<le> arredondar x"
proof (cases "x = 0")
  case True
  then show ?thesis unfolding arredondar_def by simp
next
  case False
  define e where "e = max (expoente \<bar>x\<bar> - 52) (- 1074)"
  have "0 \<le> x / pot2 e" using assms pot2_pos [of e] by simp
  then have "0 \<le> real_of_int (inteiro_par (x / pot2 e))"
    using inteiro_par_nonneg by simp
  then have "0 \<le> real_of_int (inteiro_par (x / pot2 e)) * pot2 e"
    using pot2_pos [of e] by simp
  then show ?thesis using False unfolding arredondar_def e_def Let_def by simp
qed

lemma arredondar_representavel:
  assumes n: "n < 2 ^ 53" and j: "j \<le> 1074"
  shows "arredondar (real n / 2 ^ j) = real n / 2 ^ j"
proof (cases "n = 0")
  case True
  then show ?thesis unfolding arredondar_def by simp
next
  case False
  let ?x = "real n / 2 ^ j"
  have x: "0 < ?x" using False by simp
  have xj: "?x = real n * pot2 (- int j)"
    unfolding pot2_def by (cases "j = 0") simp_all
  have "real n < 2 ^ 53" using n by (metis of_nat_less_iff of_nat_numeral of_nat_power)
  then have "?x < 2 ^ 53 * pot2 (- int j)" unfolding xj using pot2_pos [of "- int j"] by simp
  also have "\<dots> = pot2 (53 - int j)"
    using pot2_add [of 53 "- int j"] pot2_nat [of 53] by simp
  finally have "pot2 (expoente ?x) < pot2 (53 - int j)"
    using expoente_limites(1) [OF x] by simp
  then have E: "expoente ?x < 53 - int j" by (rule pot2_less)
  define e where "e = max (expoente \<bar>?x\<bar> - 52) (- 1074)"
  have ej: "e \<le> - int j" using E j x unfolding e_def by simp
  define d where "d = nat (- int j - e)"
  have de: "- int j = int d + e" using ej unfolding d_def by simp
  have "?x / pot2 e = real n * pot2 (int d)"
    unfolding xj de pot2_add using pot2_pos [of e] by simp
  also have "\<dots> = real_of_int (int n * 2 ^ d)" unfolding pot2_nat by simp
  finally have q: "?x / pot2 e = real_of_int (int n * 2 ^ d)" .
  have "arredondar ?x = real_of_int (inteiro_par (?x / pot2 e)) * pot2 e"
    using False unfolding arredondar_def e_def Let_def by simp
  also have "\<dots> = real_of_int (int n * 2 ^ d) * pot2 e"
    unfolding q inteiro_par_of_int ..
  also have "\<dots> = ?x / pot2 e * pot2 e" unfolding q ..
  also have "\<dots> = ?x" using pot2_pos [of e] by simp
  finally show ?thesis .
qed


section \<open>Frontier operations\<close>

text \<open>
  \<^verbatim>\<open>heapq.heappop(heap)\<close> returns the least entry of the heap, the entries being
  tuples \<^verbatim>\<open>(dist, no)\<close> compared lexicographically, and leaves the other entries in
  the heap. Which entry comes out depends on the entries only, not on their positions in
  the array, so the heap is modelled as the list of its entries; \<^verbatim>\<open>heappush\<close> adds
  one entry.
\<close>

definition heappop :: "('a::linorder) list \<Rightarrow> 'a \<times> 'a list" where
  "heappop heap = (let x = Min (set heap) in (x, remove1 x heap))"

definition heappush :: "'a list \<Rightarrow> 'a \<Rightarrow> 'a list" where
  "heappush heap x = heap @ [x]"

text \<open>
  \<^verbatim>\<open>min(fila, key=lambda x: x[0])\<close> walks the list from the left and replaces the
  candidate only by an entry whose key is strictly smaller; \<^verbatim>\<open>fila.remove(x)\<close>
  deletes the first entry equal to \<^verbatim>\<open>x\<close>.
\<close>

fun min_key_aux :: "('a \<Rightarrow> 'k::linorder) \<Rightarrow> 'a \<Rightarrow> 'a list \<Rightarrow> 'a" where
  "min_key_aux key melhor [] = melhor"
| "min_key_aux key melhor (x # xs) =
     min_key_aux key (if key x < key melhor then x else melhor) xs"

fun min_key :: "('a \<Rightarrow> 'k::linorder) \<Rightarrow> 'a list \<Rightarrow> 'a" where
  "min_key key (x # xs) = min_key_aux key x xs"
| "min_key key [] = undefined"

definition extrair_simples :: "(real \<times> 'n) list \<Rightarrow> (real \<times> 'n) \<times> (real \<times> 'n) list" where
  "extrair_simples fila = (let x = min_key fst fila in (x, remove1 x fila))"

text \<open>
  The relaxation loop \<^verbatim>\<open>for vizinho, peso in adj: if vizinho not in visitados:
  push (dist_atual + peso, vizinho)\<close>, run after the current node was added to
  \<^verbatim>\<open>visitados\<close>. The push is \<^verbatim>\<open>heapq.heappush\<close> in the heap variants and
  \<^verbatim>\<open>fila.append\<close> in the linear-scan variants; both add the entry at the end of the
  list of entries. \<^verbatim>\<open>min\<close> and \<^verbatim>\<open>heappop\<close> are only called on a non-empty
  frontier (\<^verbatim>\<open>while fila\<close>, \<^verbatim>\<open>while heap\<close>).
\<close>

definition relaxar :: "'n set \<Rightarrow> real \<Rightarrow> 'n fronteira \<Rightarrow> ('n \<times> real) list \<Rightarrow> 'n fronteira" where
  "relaxar visitados dist_atual fila adj =
     foldl (\<lambda>f (vizinho, peso).
              if vizinho \<notin> visitados then heappush f (dist_atual + peso, vizinho) else f)
           fila adj"

text \<open>
  In the matrix variants the neighbours of \<^verbatim>\<open>no\<close> are read from row
  \<^verbatim>\<open>matriz[idx[no]]\<close>: \<^verbatim>\<open>idx[no]\<close> raises \<^verbatim>\<open>KeyError\<close> for an unknown node,
  \<^verbatim>\<open>matriz[i]\<close> and \<^verbatim>\<open>nodes[j]\<close> raise \<^verbatim>\<open>IndexError\<close> out of range
  (\<^verbatim>\<open>nodes[j]\<close> is only evaluated for a cell different from infinity). An exception
  leaves the function, so the row is read first and pushed afterwards.
\<close>

type_synonym matriz = "distancia list list"

fun arestas_linha :: "'n list \<Rightarrow> (nat \<times> distancia) list \<Rightarrow> erro + ('n \<times> real) list" where
  "arestas_linha nodes [] = Inr []"
| "arestas_linha nodes ((j, Infinito) # cs) = arestas_linha nodes cs"
| "arestas_linha nodes ((j, Km peso) # cs) =
     (if j < length nodes
      then (case arestas_linha nodes cs of
              Inl e \<Rightarrow> Inl e
            | Inr r \<Rightarrow> Inr ((nodes ! j, peso) # r))
      else Inl IndexError)"

definition vizinhos_matriz ::
  "matriz \<Rightarrow> ('n \<rightharpoonup> nat) \<Rightarrow> 'n list \<Rightarrow> 'n \<Rightarrow> erro + ('n \<times> real) list" where
  "vizinhos_matriz matriz idx nodes no =
     (case idx no of
        None \<Rightarrow> Inl KeyError
      | Some i \<Rightarrow>
          if i < length matriz then arestas_linha nodes (enumerate 0 (matriz ! i))
          else Inl IndexError)"

section \<open>Termination of the search loops\<close>

definition pendentes :: "'n set \<Rightarrow> 'n fronteira \<Rightarrow> 'n set \<Rightarrow> nat" where
  "pendentes N fila visitados = card ((snd ` set fila \<union> N) - visitados)"

definition nos_grafo :: "'n grafo \<Rightarrow> 'n set" where
  "nos_grafo grafo = fst ` (\<Union>(k, adj) \<in> set grafo. set adj)"

lemma relaxar_eq:
  "relaxar V d fila adj = fila @ map (\<lambda>(v, w). (d + w, v)) (filter (\<lambda>(v, w). v \<notin> V) adj)"
  unfolding relaxar_def heappush_def
  by (induction adj arbitrary: fila) (auto split: prod.splits)

lemma grafo_get_nos: "fst ` set (grafo_get grafo no) \<subseteq> nos_grafo grafo"
proof (cases "map_of grafo no")
  case None
  then show ?thesis by (simp add: grafo_get_def)
next
  case (Some adj)
  then have "(no, adj) \<in> set grafo" by (rule map_of_SomeD)
  then have "set adj \<subseteq> (\<Union>(k, adj) \<in> set grafo. set adj)" by blast
  then show ?thesis using Some unfolding grafo_get_def nos_grafo_def by (simp add: image_mono)
qed

lemma finite_nos_grafo: "finite (nos_grafo grafo)"
  unfolding nos_grafo_def by auto

lemma pendentes_remove1:
  "finite N \<Longrightarrow> pendentes N (remove1 x fila) V \<le> pendentes N fila V"
proof -
  assume fin: "finite N"
  have "snd ` set (remove1 x fila) \<subseteq> snd ` set fila"
    using set_remove1_subset [of x fila] by blast
  then have "(snd ` set (remove1 x fila) \<union> N) - V \<subseteq> (snd ` set fila \<union> N) - V"
    by blast
  moreover have "finite ((snd ` set fila \<union> N) - V)" using fin by simp
  ultimately show ?thesis unfolding pendentes_def by (rule card_mono [rotated])
qed

lemma pendentes_visita:
  assumes "finite N" "(r, no) \<in> set fila" "no \<notin> V" "fst ` set adj \<subseteq> N"
  shows "pendentes N (relaxar (insert no V) d (remove1 (r, no) fila) adj) (insert no V)
           < pendentes N fila V"
  unfolding pendentes_def
proof (rule psubset_card_mono)
  show "finite ((snd ` set fila \<union> N) - V)" using assms(1) by simp
  have "no \<in> (snd ` set fila \<union> N) - V" using assms(2,3) by force
  moreover have "snd ` set (relaxar (insert no V) d (remove1 (r, no) fila) adj)
                   \<subseteq> snd ` set fila \<union> N"
  proof -
    have "snd ` set (remove1 (r, no) fila) \<subseteq> snd ` set fila"
      using set_remove1_subset [of "(r, no)" fila] by blast
    moreover have "snd ` set (map (\<lambda>(v, w). (d + w, v)) (filter (\<lambda>(v, w). v \<notin> insert no V) adj))
                     \<subseteq> fst ` set adj"
      by force
    ultimately show ?thesis using assms(4) unfolding relaxar_eq by auto
  qed
  then have "(snd ` set (relaxar (insert no V) d (remove1 (r, no) fila) adj) \<union> N)
                   - insert no V \<subseteq> (snd ` set fila \<union> N) - V"
    by blast
  ultimately show "(snd ` set (relaxar (insert no V) d (remove1 (r, no) fila) adj) \<union> N)
                   - insert no V \<subset> (snd ` set fila \<union> N) - V"
    by blast
qed

lemma heappop_in: "heap \<noteq> [] \<Longrightarrow> heappop heap = (x, heap') \<Longrightarrow> x \<in> set heap \<and> heap' = remove1 x heap"
  unfolding heappop_def Let_def using Min_in [of "set heap"] by auto

lemma min_key_aux_in: "min_key_aux key m xs \<in> insert m (set xs)"
  by (induction xs arbitrary: m) (auto split: if_splits)

lemma extrair_simples_in:
  "fila \<noteq> [] \<Longrightarrow> extrair_simples fila = (x, fila') \<Longrightarrow> x \<in> set fila \<and> fila' = remove1 x fila"
  unfolding extrair_simples_def Let_def
  using min_key_aux_in [of fst "hd fila" "tl fila"] by (cases fila) auto

lemma length_remove1_less: "x \<in> set xs \<Longrightarrow> length (remove1 x xs) < length xs"
  using length_pos_if_in_set [of x xs] by (simp add: length_remove1)

lemma medida_descarta:
  "finite N \<Longrightarrow> x \<in> set fila \<Longrightarrow>
     pendentes N (remove1 x fila) V < pendentes N fila V \<or>
     pendentes N (remove1 x fila) V = pendentes N fila V \<and>
       length (remove1 x fila) < length fila"
  using pendentes_remove1 [of N x fila V] length_remove1_less [of x fila]
  by linarith

lemma arestas_linha_nos: "arestas_linha nodes cs = Inr r \<Longrightarrow> fst ` set r \<subseteq> set nodes"
proof (induction nodes cs arbitrary: r rule: arestas_linha.induct)
  case (1 nodes)
  then show ?case by simp
next
  case (2 nodes j cs)
  then show ?case by simp
next
  case (3 nodes j peso cs)
  show ?case
  proof (cases "j < length nodes")
    case True
    with 3(2) obtain r' where r': "arestas_linha nodes cs = Inr r'" "r = (nodes ! j, peso) # r'"
      by (auto split: sum.splits)
    from 3(1) [OF True r'(1)] True show ?thesis unfolding r'(2) by simp
  next
    case False
    with 3(2) show ?thesis by simp
  qed
qed

lemma vizinhos_matriz_nos:
  "vizinhos_matriz matriz idx nodes no = Inr adj \<Longrightarrow> fst ` set adj \<subseteq> set nodes"
  unfolding vizinhos_matriz_def
  by (auto split: option.splits if_splits dest: arestas_linha_nos)

section \<open>The four shortest-path functions\<close>

function dijkstra_lista_heap_laco ::
  "('n::linorder) grafo \<Rightarrow> 'n \<Rightarrow> 'n fronteira \<Rightarrow> 'n set \<Rightarrow> distancia" where
  "dijkstra_lista_heap_laco grafo destino heap visitados =
     (if heap = [] then Infinito
      else case heappop heap of ((dist_atual, no), heap') \<Rightarrow>
        if no = destino then Km dist_atual
        else if no \<in> visitados then dijkstra_lista_heap_laco grafo destino heap' visitados
        else dijkstra_lista_heap_laco grafo destino
               (relaxar (insert no visitados) dist_atual heap' (grafo_get grafo no))
               (insert no visitados))"
  by pat_completeness auto
termination
proof (relation "measures [\<lambda>(g, d, f, V). pendentes (nos_grafo g) f V, \<lambda>(g, d, f, V). length f]",
       goal_cases)
  case 1
  show ?case by simp
next
  case (2 grafo destino heap visitados x1 heap' dist_atual no)
  have "heappop heap = ((dist_atual, no), heap')" using 2(2,3) by simp
  from heappop_in [OF 2(1) this]
  have "(dist_atual, no) \<in> set heap" and h: "heap' = remove1 (dist_atual, no) heap"
    by simp_all
  from medida_descarta [OF finite_nos_grafo this(1), of grafo visitados]
  show ?case unfolding h by simp
next
  case (3 grafo destino heap visitados x1 heap' dist_atual no)
  have "heappop heap = ((dist_atual, no), heap')" using 3(2,3) by simp
  from heappop_in [OF 3(1) this]
  have "(dist_atual, no) \<in> set heap" and h: "heap' = remove1 (dist_atual, no) heap"
    by simp_all
  from pendentes_visita [OF finite_nos_grafo this(1) 3(5) grafo_get_nos, of grafo dist_atual]
  show ?case unfolding h by simp
qed

definition dijkstra_lista_heap :: "('n::linorder) grafo \<Rightarrow> 'n \<Rightarrow> 'n \<Rightarrow> distancia" where
  "dijkstra_lista_heap grafo origem destino =
     dijkstra_lista_heap_laco grafo destino [(0, origem)] {}"

function dijkstra_lista_simples_laco ::
  "'n grafo \<Rightarrow> 'n \<Rightarrow> 'n fronteira \<Rightarrow> 'n set \<Rightarrow> distancia" where
  "dijkstra_lista_simples_laco grafo destino fila visitados =
     (if fila = [] then Infinito
      else case extrair_simples fila of ((dist_atual, no), fila') \<Rightarrow>
        if no = destino then Km dist_atual
        else if no \<in> visitados then dijkstra_lista_simples_laco grafo destino fila' visitados
        else dijkstra_lista_simples_laco grafo destino
               (relaxar (insert no visitados) dist_atual fila' (grafo_get grafo no))
               (insert no visitados))"
  by pat_completeness auto
termination
proof (relation "measures [\<lambda>(g, d, f, V). pendentes (nos_grafo g) f V, \<lambda>(g, d, f, V). length f]",
       goal_cases)
  case 1
  show ?case by simp
next
  case (2 grafo destino fila visitados x1 fila' dist_atual no)
  have "extrair_simples fila = ((dist_atual, no), fila')" using 2(2,3) by simp
  from extrair_simples_in [OF 2(1) this]
  have "(dist_atual, no) \<in> set fila" and h: "fila' = remove1 (dist_atual, no) fila"
    by simp_all
  from medida_descarta [OF finite_nos_grafo this(1), of grafo visitados]
  show ?case unfolding h by simp
next
  case (3 grafo destino fila visitados x1 fila' dist_atual no)
  have "extrair_simples fila = ((dist_atual, no), fila')" using 3(2,3) by simp
  from extrair_simples_in [OF 3(1) this]
  have "(dist_atual, no) \<in> set fila" and h: "fila' = remove1 (dist_atual, no) fila"
    by simp_all
  from pendentes_visita [OF finite_nos_grafo this(1) 3(5) grafo_get_nos, of grafo dist_atual]
  show ?case unfolding h by simp
qed

definition dijkstra_lista_simples :: "'n grafo \<Rightarrow> 'n \<Rightarrow> 'n \<Rightarrow> distancia" where
  "dijkstra_lista_simples grafo origem destino =
     dijkstra_lista_simples_laco grafo destino [(0, origem)] {}"

function dijkstra_matriz_heap_laco ::
  "matriz \<Rightarrow> (('n::linorder) \<rightharpoonup> nat) \<Rightarrow> 'n list \<Rightarrow> 'n \<Rightarrow> 'n fronteira \<Rightarrow> 'n set
     \<Rightarrow> erro + distancia" where
  "dijkstra_matriz_heap_laco matriz idx nodes destino heap visitados =
     (if heap = [] then Inr Infinito
      else case heappop heap of ((dist_atual, no), heap') \<Rightarrow>
        if no = destino then Inr (Km dist_atual)
        else if no \<in> visitados
          then dijkstra_matriz_heap_laco matriz idx nodes destino heap' visitados
        else case vizinhos_matriz matriz idx nodes no of
               Inl e \<Rightarrow> Inl e
             | Inr adj \<Rightarrow>
                 dijkstra_matriz_heap_laco matriz idx nodes destino
                   (relaxar (insert no visitados) dist_atual heap' adj)
                   (insert no visitados))"
  by pat_completeness auto
termination
proof (relation "measures [\<lambda>(m, i, n, d, f, V). pendentes (set n) f V,
                           \<lambda>(m, i, n, d, f, V). length f]", goal_cases)
  case 1
  show ?case by simp
next
  case (2 matriz idx nodes destino heap visitados x1 heap' dist_atual no)
  have "heappop heap = ((dist_atual, no), heap')" using 2(2,3) by simp
  from heappop_in [OF 2(1) this]
  have "(dist_atual, no) \<in> set heap" and h: "heap' = remove1 (dist_atual, no) heap"
    by simp_all
  from medida_descarta [OF finite_set this(1), of nodes visitados]
  show ?case unfolding h by simp
next
  case (3 matriz idx nodes destino heap visitados x1 heap' dist_atual no adj)
  have "heappop heap = ((dist_atual, no), heap')" using 3(2,3) by simp
  from heappop_in [OF 3(1) this]
  have "(dist_atual, no) \<in> set heap" and h: "heap' = remove1 (dist_atual, no) heap"
    by simp_all
  from pendentes_visita [OF finite_set this(1) 3(5) vizinhos_matriz_nos [OF 3(6)], of dist_atual]
  show ?case unfolding h by simp
qed

definition dijkstra_matriz_heap ::
  "matriz \<Rightarrow> (('n::linorder) \<rightharpoonup> nat) \<Rightarrow> 'n list \<Rightarrow> 'n \<Rightarrow> 'n \<Rightarrow> erro + distancia" where
  "dijkstra_matriz_heap matriz idx nodes origem destino =
     dijkstra_matriz_heap_laco matriz idx nodes destino [(0, origem)] {}"

function dijkstra_matriz_simples_laco ::
  "matriz \<Rightarrow> ('n \<rightharpoonup> nat) \<Rightarrow> 'n list \<Rightarrow> 'n \<Rightarrow> 'n fronteira \<Rightarrow> 'n set
     \<Rightarrow> erro + distancia" where
  "dijkstra_matriz_simples_laco matriz idx nodes destino fila visitados =
     (if fila = [] then Inr Infinito
      else case extrair_simples fila of ((dist_atual, no), fila') \<Rightarrow>
        if no = destino then Inr (Km dist_atual)
        else if no \<in> visitados
          then dijkstra_matriz_simples_laco matriz idx nodes destino fila' visitados
        else case vizinhos_matriz matriz idx nodes no of
               Inl e \<Rightarrow> Inl e
             | Inr adj \<Rightarrow>
                 dijkstra_matriz_simples_laco matriz idx nodes destino
                   (relaxar (insert no visitados) dist_atual fila' adj)
                   (insert no visitados))"
  by pat_completeness auto
termination
proof (relation "measures [\<lambda>(m, i, n, d, f, V). pendentes (set n) f V,
                           \<lambda>(m, i, n, d, f, V). length f]", goal_cases)
  case 1
  show ?case by simp
next
  case (2 matriz idx nodes destino fila visitados x1 fila' dist_atual no)
  have "extrair_simples fila = ((dist_atual, no), fila')" using 2(2,3) by simp
  from extrair_simples_in [OF 2(1) this]
  have "(dist_atual, no) \<in> set fila" and h: "fila' = remove1 (dist_atual, no) fila"
    by simp_all
  from medida_descarta [OF finite_set this(1), of nodes visitados]
  show ?case unfolding h by simp
next
  case (3 matriz idx nodes destino fila visitados x1 fila' dist_atual no adj)
  have "extrair_simples fila = ((dist_atual, no), fila')" using 3(2,3) by simp
  from extrair_simples_in [OF 3(1) this]
  have "(dist_atual, no) \<in> set fila" and h: "fila' = remove1 (dist_atual, no) fila"
    by simp_all
  from pendentes_visita [OF finite_set this(1) 3(5) vizinhos_matriz_nos [OF 3(6)], of dist_atual]
  show ?case unfolding h by simp
qed

definition dijkstra_matriz_simples ::
  "matriz \<Rightarrow> ('n \<rightharpoonup> nat) \<Rightarrow> 'n list \<Rightarrow> 'n \<Rightarrow> 'n \<Rightarrow> erro + distancia" where
  "dijkstra_matriz_simples matriz idx nodes origem destino =
     dijkstra_matriz_simples_laco matriz idx nodes destino [(0, origem)] {}"

lemma heappop_singleton: "heappop [x] = (x, [])"
  by (simp add: heappop_def)

lemma extrair_simples_singleton: "extrair_simples [x] = (x, [])"
  by (simp add: extrair_simples_def)

section \<open>Building the two graph representations\<close>

text \<open>
  The module-level tables \<^verbatim>\<open>cidades_destino\<close>, \<^verbatim>\<open>centros_distribuicao\<close> and
  \<^verbatim>\<open>from_distancias\<close> are constants below; the two builders, which read them as
  globals, take them as arguments. City names are UTF-8 byte strings, so the order on them
  is the order of Python's \<^verbatim>\<open>str\<close>.
\<close>

abbreviation rio_de_janeiro :: string where "rio_de_janeiro \<equiv> ''Rio de Janeiro''"
abbreviation porto_alegre :: string where "porto_alegre \<equiv> ''Porto Alegre''"
abbreviation salvador :: string where "salvador \<equiv> ''Salvador''"
abbreviation manaus :: string where "manaus \<equiv> ''Manaus''"
abbreviation curitiba :: string where "curitiba \<equiv> ''Curitiba''"
abbreviation natal :: string where "natal \<equiv> ''Natal''"
abbreviation goiania :: string where
  "goiania \<equiv> [CHR ''G'', CHR ''o'', CHR ''i'', CHR 0xC3, CHR 0xA2, CHR ''n'', CHR ''i'', CHR ''a'']"
abbreviation fortaleza :: string where "fortaleza \<equiv> ''Fortaleza''"
abbreviation belo_horizonte :: string where "belo_horizonte \<equiv> ''Belo Horizonte''"
abbreviation vitoria :: string where
  "vitoria \<equiv> [CHR ''V'', CHR ''i'', CHR ''t'', CHR 0xC3, CHR 0xB3, CHR ''r'', CHR ''i'', CHR ''a'']"
abbreviation belem :: string where
  "belem \<equiv> [CHR ''B'', CHR ''e'', CHR ''l'', CHR 0xC3, CHR 0xA9, CHR ''m'']"
abbreviation recife :: string where "recife \<equiv> ''Recife''"
abbreviation brasilia :: string where
  "brasilia \<equiv> [CHR ''B'', CHR ''r'', CHR ''a'', CHR ''s'', CHR 0xC3, CHR 0xAD, CHR ''l'', CHR ''i'', CHR ''a'']"
abbreviation sao_paulo :: string where
  "sao_paulo \<equiv> [CHR ''S'', CHR 0xC3, CHR 0xA3, CHR ''o'', CHR '' '', CHR ''P'', CHR ''a'', CHR ''u'', CHR ''l'', CHR ''o'']"
abbreviation florianopolis :: string where
  "florianopolis \<equiv> [CHR ''F'', CHR ''l'', CHR ''o'', CHR ''r'', CHR ''i'', CHR ''a'', CHR ''n'', CHR 0xC3, CHR 0xB3,
     CHR ''p'', CHR ''o'', CHR ''l'', CHR ''i'', CHR ''s'']"

definition cidades_destino :: "string list" where
  "cidades_destino =
     [rio_de_janeiro, porto_alegre, salvador, manaus, curitiba,
      natal, goiania, fortaleza, belo_horizonte, vitoria]"

definition centros_distribuicao :: "string list" where
  "centros_distribuicao = [belem, recife, brasilia, sao_paulo, florianopolis]"

definition from_distancias :: "((string \<times> string) \<times> real) list" where
  "from_distancias =
     [((belem, rio_de_janeiro), 3200), ((belem, porto_alegre), 4000),
      ((belem, salvador), 2100), ((belem, manaus), 2500),
      ((belem, curitiba), 3800), ((belem, natal), 1900),
      ((belem, goiania), 2000), ((belem, fortaleza), 1600),
      ((belem, belo_horizonte), 3000), ((belem, vitoria), 3100),
      ((recife, rio_de_janeiro), 2300), ((recife, porto_alegre), 3600),
      ((recife, salvador), 800), ((recife, manaus), 4300),
      ((recife, curitiba), 3400), ((recife, natal), 300),
      ((recife, goiania), 2400), ((recife, fortaleza), 800),
      ((recife, belo_horizonte), 2400), ((recife, vitoria), 2200),
      ((brasilia, rio_de_janeiro), 1150), ((brasilia, porto_alegre), 2100),
      ((brasilia, salvador), 1500), ((brasilia, manaus), 3900),
      ((brasilia, curitiba), 1400), ((brasilia, natal), 2200),
      ((brasilia, goiania), 210), ((brasilia, fortaleza), 2200),
      ((brasilia, belo_horizonte), 740), ((brasilia, vitoria), 1300),
      ((sao_paulo, rio_de_janeiro), 450), ((sao_paulo, porto_alegre), 1100),
      ((sao_paulo, salvador), 2000), ((sao_paulo, manaus), 4300),
      ((sao_paulo, curitiba), 400), ((sao_paulo, natal), 2900),
      ((sao_paulo, goiania), 900), ((sao_paulo, fortaleza), 3000),
      ((sao_paulo, belo_horizonte), 590), ((sao_paulo, vitoria), 880),
      ((florianopolis, rio_de_janeiro), 1100), ((florianopolis, porto_alegre), 470),
      ((florianopolis, salvador), 2500), ((florianopolis, manaus), 4600),
      ((florianopolis, curitiba), 650), ((florianopolis, natal), 3200),
      ((florianopolis, goiania), 1800), ((florianopolis, fortaleza), 3500),
      ((florianopolis, belo_horizonte), 1500), ((florianopolis, vitoria), 500)]"

definition grafo_append :: "'n grafo \<Rightarrow> 'n \<Rightarrow> 'n \<times> real \<Rightarrow> 'n grafo" where
  "grafo_append grafo k x =
     (case map_of grafo k of
        None \<Rightarrow> grafo @ [(k, [x])]
      | Some _ \<Rightarrow> map (\<lambda>(k', adj). if k' = k then (k', adj @ [x]) else (k', adj)) grafo)"

definition gerar_lista_adjacencia :: "(('n \<times> 'n) \<times> real) list \<Rightarrow> 'n grafo" where
  "gerar_lista_adjacencia tabela =
     foldl (\<lambda>grafo ((c, d), distancia).
              grafo_append (grafo_append grafo c (d, distancia)) d (c, distancia))
           [] tabela"

definition atribuir :: "matriz \<Rightarrow> nat \<Rightarrow> nat \<Rightarrow> distancia \<Rightarrow> matriz" where
  "atribuir m i j v = m[i := (m ! i)[j := v]]"

fun preencher_linha ::
  "(('n \<times> 'n) \<times> real) list \<Rightarrow> ('n \<rightharpoonup> nat) \<Rightarrow> 'n \<Rightarrow> 'n list \<Rightarrow> matriz \<Rightarrow> erro + matriz" where
  "preencher_linha tabela idx c [] m = Inr m"
| "preencher_linha tabela idx c (d # ds) m =
     (case (idx c, idx d, map_of tabela (c, d)) of
        (Some i, Some j, Some distancia) \<Rightarrow>
          preencher_linha tabela idx c ds (atribuir m i j (Km distancia))
      | _ \<Rightarrow> Inl KeyError)"

fun preencher ::
  "(('n \<times> 'n) \<times> real) list \<Rightarrow> ('n \<rightharpoonup> nat) \<Rightarrow> 'n list \<Rightarrow> 'n list \<Rightarrow> matriz \<Rightarrow> erro + matriz" where
  "preencher tabela idx [] ds m = Inr m"
| "preencher tabela idx (c # cs) ds m =
     (case preencher_linha tabela idx c ds m of
        Inl e \<Rightarrow> Inl e
      | Inr m' \<Rightarrow> preencher tabela idx cs ds m')"

definition indices :: "'n list \<Rightarrow> ('n \<rightharpoonup> nat)" where
  "indices nodes = foldl (\<lambda>idx (i, node). idx(node \<mapsto> i)) Map.empty (enumerate 0 nodes)"

definition gerar_matriz_adjacencia ::
  "'n list \<Rightarrow> 'n list \<Rightarrow> (('n \<times> 'n) \<times> real) list \<Rightarrow> erro + (matriz \<times> ('n \<rightharpoonup> nat) \<times> 'n list)" where
  "gerar_matriz_adjacencia centros destinos tabela =
     (let nodes = centros @ destinos;
          idx = indices nodes;
          size = length nodes;
          matriz = replicate size (replicate size Infinito)
      in case preencher tabela idx centros destinos matriz of
           Inl e \<Rightarrow> Inl e
         | Inr m \<Rightarrow> Inr (m, idx, nodes))"

definition grafo0 :: "string grafo" where
  "grafo0 = gerar_lista_adjacencia from_distancias"

definition nodes0 :: "string list" where
  "nodes0 = centros_distribuicao @ cidades_destino"

definition idx0 :: "string \<rightharpoonup> nat" where
  "idx0 = indices nodes0"

definition matriz0 :: matriz where
  "matriz0 =
     (case gerar_matriz_adjacencia centros_distribuicao cidades_destino from_distancias of
        Inr (m, idx, nodes) \<Rightarrow> m
      | Inl e \<Rightarrow> [])"

section \<open>Scaling\<close>




subsection \<open>Scaling on a store of objects\<close>















section \<open>Paths and shortest distances\<close>

text \<open>
  A graph is seen through its successor function. \<open>caminho suc s l v\<close>: there is a path
  from \<open>s\<close> to \<open>v\<close> whose edge weights add up to \<open>l\<close>. \<open>menor_caminho suc s d res\<close>:
  \<open>res\<close> is the length of a shortest path from \<open>s\<close> to \<open>d\<close>, or \<open>Infinito\<close> when
  there is no path at all.
\<close>

type_synonym 'n sucessores = "'n \<Rightarrow> ('n \<times> real) list"

inductive caminho :: "'n sucessores \<Rightarrow> 'n \<Rightarrow> real \<Rightarrow> 'n \<Rightarrow> bool" for suc s where
  caminho_vazio: "caminho suc s 0 s"
| caminho_passo: "caminho suc s l v \<Longrightarrow> (x, w) \<in> set (suc v) \<Longrightarrow> caminho suc s (l + w) x"

code_pred caminho .

definition nao_negativo :: "'n sucessores \<Rightarrow> bool" where
  "nao_negativo suc = (\<forall>v x w. (x, w) \<in> set (suc v) \<longrightarrow> 0 \<le> w)"

definition menor_caminho :: "'n sucessores \<Rightarrow> 'n \<Rightarrow> 'n \<Rightarrow> distancia \<Rightarrow> bool" where
  "menor_caminho suc s d res =
     (case res of
        Km r \<Rightarrow> caminho suc s r d \<and> (\<forall>l. caminho suc s l d \<longrightarrow> r \<le> l)
      | Infinito \<Rightarrow> (\<forall>l. \<not> caminho suc s l d))"

definition inv_busca :: "'n sucessores \<Rightarrow> 'n \<Rightarrow> 'n \<Rightarrow> 'n fronteira \<Rightarrow> 'n set \<Rightarrow> bool" where
  "inv_busca suc s d F V =
     ((\<forall>(r, v) \<in> set F. caminho suc s r v) \<and>
      (s \<notin> V \<longrightarrow> (0, s) \<in> set F) \<and>
      (\<forall>v \<in> V. \<exists>rv. (\<forall>l. caminho suc s l v \<longrightarrow> rv \<le> l) \<and>
          (\<forall>(z, w) \<in> set (suc v). z \<notin> V \<longrightarrow> (\<exists>r'. (r', z) \<in> set F \<and> r' \<le> rv + w))) \<and>
      d \<notin> V)"

definition minimo_em :: "real \<Rightarrow> 'n fronteira \<Rightarrow> bool" where
  "minimo_em r F = (\<forall>(r', y) \<in> set F. r \<le> r')"

definition suc_matriz :: "matriz \<Rightarrow> ('n \<rightharpoonup> nat) \<Rightarrow> 'n list \<Rightarrow> 'n sucessores" where
  "suc_matriz matriz idx nodes no =
     (case vizinhos_matriz matriz idx nodes no of Inl e \<Rightarrow> [] | Inr adj \<Rightarrow> adj)"

definition sem_erro :: "matriz \<Rightarrow> ('n \<rightharpoonup> nat) \<Rightarrow> 'n list \<Rightarrow> 'n set \<Rightarrow> bool" where
  "sem_erro matriz idx nodes N = (\<forall>n \<in> N. \<exists>adj. vizinhos_matriz matriz idx nodes n = Inr adj)"

definition pesos_nao_negativos :: "'n grafo \<Rightarrow> bool" where
  "pesos_nao_negativos grafo = (\<forall>(k, adj) \<in> set grafo. \<forall>(v, w) \<in> set adj. 0 \<le> w)"

definition celula_nao_negativa :: "distancia \<Rightarrow> bool" where
  "celula_nao_negativa c = (case c of Km w \<Rightarrow> 0 \<le> w | Infinito \<Rightarrow> True)"

definition matriz_nao_negativa :: "matriz \<Rightarrow> bool" where
  "matriz_nao_negativa m = (\<forall>linha \<in> set m. \<forall>c \<in> set linha. celula_nao_negativa c)"

definition matriz_bem_formada :: "matriz \<Rightarrow> ('n \<rightharpoonup> nat) \<Rightarrow> 'n list \<Rightarrow> bool" where
  "matriz_bem_formada m idx nodes =
     ((\<forall>n \<in> set nodes. case idx n of None \<Rightarrow> False | Some i \<Rightarrow> i < length m) \<and>
      (\<forall>linha \<in> set m. length linha \<le> length nodes))"



text \<open>
  Checks on the two structures built from the tables: every edge of the adjacency-list
  graph has its reverse edge; every recorded pair joins a centre to a destination and is
  an edge of that graph; in the matrix, the row of a centre holds the recorded distances
  to the destinations and the row of a destination holds no edge.
\<close>

definition simetrico :: "'n grafo \<Rightarrow> bool" where
  "simetrico g = (\<forall>(u, adj) \<in> set g. \<forall>(v, w) \<in> set adj. (u, w) \<in> set (grafo_get g v))"

definition tabela_coerente :: bool where
  "tabela_coerente =
     (\<forall>((c, d), w) \<in> set from_distancias.
        c \<in> set centros_distribuicao \<and> d \<in> set cidades_destino \<and> c \<noteq> d \<and>
        map_of from_distancias (c, d) = Some w \<and>
        (d, w) \<in> set (grafo_get grafo0 c))"

definition linhas_da_matriz :: bool where
  "linhas_da_matriz =
     ((\<forall>c \<in> set centros_distribuicao.
         suc_matriz matriz0 idx0 nodes0 c =
           map (\<lambda>d. (d, the (map_of from_distancias (c, d)))) cidades_destino) \<and>
      (\<forall>d \<in> set cidades_destino. suc_matriz matriz0 idx0 nodes0 d = []))"

section \<open>Invariant of the search\<close>

lemma fronteira_cobre:
  assumes inv: "inv_busca suc s d F V" and nn: "nao_negativo suc"
    and cam: "caminho suc s l x" and x: "x \<notin> V"
  shows "\<exists>r y. (r, y) \<in> set F \<and> r \<le> l"
  using cam x
proof (induction rule: caminho.induct)
  case caminho_vazio
  then have "(0, s) \<in> set F" using inv unfolding inv_busca_def by blast
  then show ?case by blast
next
  case (caminho_passo l v x w)
  have w: "0 \<le> w" using nn caminho_passo.hyps(2) unfolding nao_negativo_def by blast
  show ?case
  proof (cases "v \<in> V")
    case True
    with inv obtain rv where rv: "\<forall>l. caminho suc s l v \<longrightarrow> rv \<le> l"
      and ed: "\<forall>(z, w) \<in> set (suc v). z \<notin> V \<longrightarrow> (\<exists>r'. (r', z) \<in> set F \<and> r' \<le> rv + w)"
      unfolding inv_busca_def by blast
    from ed caminho_passo.hyps(2) caminho_passo.prems
    obtain r' where "(r', x) \<in> set F" "r' \<le> rv + w" by blast
    moreover have "rv \<le> l" using rv caminho_passo.hyps(1) by blast
    ultimately show ?thesis by (intro exI [of _ r'] exI [of _ x]) simp
  next
    case False
    from caminho_passo.IH [OF False] obtain r y where "(r, y) \<in> set F" "r \<le> l" by blast
    then show ?thesis using w by (intro exI [of _ r] exI [of _ y]) simp
  qed
qed

lemma inv_inicial: "inv_busca suc s d [(0, s)] {}"
  unfolding inv_busca_def by (simp add: caminho_vazio)

lemma inv_descarta:
  assumes inv: "inv_busca suc s d F V" and no: "no \<in> V"
  shows "inv_busca suc s d (remove1 (r, no) F) V"
proof -
  have keep: "\<And>r' y. y \<notin> V \<Longrightarrow> (r', y) \<in> set F \<Longrightarrow> (r', y) \<in> set (remove1 (r, no) F)"
    using no by (subst in_set_remove1) auto
  have sub: "set (remove1 (r, no) F) \<subseteq> set F" by (rule set_remove1_subset)
  have 1: "\<forall>(r, v) \<in> set (remove1 (r, no) F). caminho suc s r v"
    using inv sub unfolding inv_busca_def by blast
  have 2: "s \<notin> V \<longrightarrow> (0, s) \<in> set (remove1 (r, no) F)"
    using inv keep unfolding inv_busca_def by blast
  have 3: "\<forall>v \<in> V. \<exists>rv. (\<forall>l. caminho suc s l v \<longrightarrow> rv \<le> l) \<and>
          (\<forall>(z, w) \<in> set (suc v). z \<notin> V \<longrightarrow>
             (\<exists>r'. (r', z) \<in> set (remove1 (r, no) F) \<and> r' \<le> rv + w))"
  proof
    fix v assume "v \<in> V"
    with inv obtain rv where rv: "\<forall>l. caminho suc s l v \<longrightarrow> rv \<le> l"
      and ed: "\<forall>(z, w) \<in> set (suc v). z \<notin> V \<longrightarrow> (\<exists>r'. (r', z) \<in> set F \<and> r' \<le> rv + w)"
      unfolding inv_busca_def by blast
    have "\<forall>(z, w) \<in> set (suc v). z \<notin> V \<longrightarrow>
             (\<exists>r'. (r', z) \<in> set (remove1 (r, no) F) \<and> r' \<le> rv + w)"
      using ed keep by blast
    with rv show "\<exists>rv. (\<forall>l. caminho suc s l v \<longrightarrow> rv \<le> l) \<and>
          (\<forall>(z, w) \<in> set (suc v). z \<notin> V \<longrightarrow>
             (\<exists>r'. (r', z) \<in> set (remove1 (r, no) F) \<and> r' \<le> rv + w))" by blast
  qed
  have 4: "d \<notin> V" using inv unfolding inv_busca_def by blast
  show ?thesis unfolding inv_busca_def using 1 2 3 4 by blast
qed

lemma inv_visita:
  assumes inv: "inv_busca suc s d F V" and nn: "nao_negativo suc"
    and rin: "(r, no) \<in> set F" and rmin: "minimo_em r F"
    and no: "no \<notin> V" and nd: "no \<noteq> d"
  shows "inv_busca suc s d (relaxar (insert no V) r (remove1 (r, no) F) (suc no)) (insert no V)"
    (is "inv_busca suc s d ?F' ?V'")
proof -
  have F': "set ?F' = set (remove1 (r, no) F) \<union>
              {(r + w, z) | z w. (z, w) \<in> set (suc no) \<and> z \<notin> ?V'}"
    unfolding relaxar_eq by force
  have keep: "(r', y) \<in> set ?F'" if "y \<noteq> no" "(r', y) \<in> set F" for r' y
    unfolding F' using that in_set_remove1 [of "(r', y)" "(r, no)" F] by simp
  have sub: "set (remove1 (r, no) F) \<subseteq> set F" by (rule set_remove1_subset)
  have cno: "caminho suc s r no" using inv rin unfolding inv_busca_def by blast
  have 1: "\<forall>(r, v) \<in> set ?F'. caminho suc s r v"
  proof -
    have "\<And>z w. (z, w) \<in> set (suc no) \<Longrightarrow> caminho suc s (r + w) z"
      using cno by (rule caminho_passo)
    moreover have "\<forall>(r, v) \<in> set (remove1 (r, no) F). caminho suc s r v"
      using inv sub unfolding inv_busca_def by blast
    ultimately show ?thesis unfolding F' by blast
  qed
  have 2: "s \<notin> ?V' \<longrightarrow> (0, s) \<in> set ?F'"
    using inv keep unfolding inv_busca_def by blast
  have lower: "\<forall>l. caminho suc s l no \<longrightarrow> r \<le> l"
  proof (intro allI impI)
    fix l assume "caminho suc s l no"
    from fronteira_cobre [OF inv nn this no] obtain r' y where "(r', y) \<in> set F" "r' \<le> l"
      by blast
    moreover from this(1) rmin have "r \<le> r'" unfolding minimo_em_def by blast
    ultimately show "r \<le> l" by simp
  qed
  have 3: "\<forall>v \<in> ?V'. \<exists>rv. (\<forall>l. caminho suc s l v \<longrightarrow> rv \<le> l) \<and>
          (\<forall>(z, w) \<in> set (suc v). z \<notin> ?V' \<longrightarrow> (\<exists>r'. (r', z) \<in> set ?F' \<and> r' \<le> rv + w))"
  proof
    fix v assume v: "v \<in> ?V'"
    show "\<exists>rv. (\<forall>l. caminho suc s l v \<longrightarrow> rv \<le> l) \<and>
          (\<forall>(z, w) \<in> set (suc v). z \<notin> ?V' \<longrightarrow> (\<exists>r'. (r', z) \<in> set ?F' \<and> r' \<le> rv + w))"
    proof (cases "v = no")
      case True
      have "\<forall>(z, w) \<in> set (suc no). z \<notin> ?V' \<longrightarrow> (\<exists>r'. (r', z) \<in> set ?F' \<and> r' \<le> r + w)"
        unfolding F' by force
      with lower True show ?thesis by blast
    next
      case False
      with v have "v \<in> V" by simp
      with inv obtain rv where rv: "\<forall>l. caminho suc s l v \<longrightarrow> rv \<le> l"
        and ed: "\<forall>(z, w) \<in> set (suc v). z \<notin> V \<longrightarrow> (\<exists>r'. (r', z) \<in> set F \<and> r' \<le> rv + w)"
        unfolding inv_busca_def by blast
      have "\<exists>r'. (r', z) \<in> set ?F' \<and> r' \<le> rv + w"
        if zw: "(z, w) \<in> set (suc v)" and z: "z \<notin> ?V'" for z w
      proof -
        from z have "z \<notin> V" "z \<noteq> no" by simp_all
        with ed zw obtain r' where "(r', z) \<in> set F" "r' \<le> rv + w" by blast
        with keep [OF \<open>z \<noteq> no\<close>] show ?thesis by blast
      qed
      then have "\<forall>(z, w) \<in> set (suc v). z \<notin> ?V' \<longrightarrow> (\<exists>r'. (r', z) \<in> set ?F' \<and> r' \<le> rv + w)"
        by blast
      with rv show ?thesis by blast
    qed
  qed
  have 4: "d \<notin> ?V'" using inv nd unfolding inv_busca_def by simp
  show ?thesis unfolding inv_busca_def using 1 2 3 4 by blast
qed

lemma resultado_alvo:
  assumes inv: "inv_busca suc s d F V" and nn: "nao_negativo suc"
    and rin: "(r, d) \<in> set F" and rmin: "minimo_em r F"
  shows "menor_caminho suc s d (Km r)"
proof -
  have dV: "d \<notin> V" using inv unfolding inv_busca_def by blast
  have "caminho suc s r d" using inv rin unfolding inv_busca_def by blast
  moreover have "\<forall>l. caminho suc s l d \<longrightarrow> r \<le> l"
  proof (intro allI impI)
    fix l assume "caminho suc s l d"
    from fronteira_cobre [OF inv nn this dV] obtain r' y where "(r', y) \<in> set F" "r' \<le> l"
      by blast
    moreover from this(1) rmin have "r \<le> r'" unfolding minimo_em_def by blast
    ultimately show "r \<le> l" by simp
  qed
  ultimately show ?thesis unfolding menor_caminho_def by simp
qed

lemma resultado_vazio:
  assumes inv: "inv_busca suc s d [] V" and nn: "nao_negativo suc"
  shows "menor_caminho suc s d Infinito"
proof -
  have dV: "d \<notin> V" using inv unfolding inv_busca_def by blast
  have "\<not> caminho suc s l d" for l
    using fronteira_cobre [OF inv nn _ dV, of l] by auto
  then show ?thesis unfolding menor_caminho_def by simp
qed

lemma menor_caminho_unico:
  "menor_caminho suc s d a \<Longrightarrow> menor_caminho suc s d b \<Longrightarrow> a = b"
  unfolding menor_caminho_def
  by (cases a; cases b) (auto intro: antisym)

lemma heappop_minimo:
  assumes "heap \<noteq> []" "heappop heap = ((r, no), heap')"
  shows "minimo_em r heap"
proof -
  have m: "(r, no) = Min (set heap)" using assms(2) unfolding heappop_def Let_def by simp
  show ?thesis unfolding minimo_em_def
  proof (intro ballI, clarify)
    fix r' y assume "(r', y) \<in> set heap"
    then have "(r, no) \<le> (r', y)" unfolding m by simp
    then show "r \<le> r'" by (auto simp: less_eq_prod_def)
  qed
qed

lemma min_key_aux_le:
  "key (min_key_aux key m xs) \<le> key m \<and> (\<forall>x \<in> set xs. key (min_key_aux key m xs) \<le> key x)"
proof (induction xs arbitrary: m)
  case Nil
  then show ?case by simp
next
  case (Cons a xs)
  from Cons.IH [of "if key a < key m then a else m"] show ?case
    by (auto split: if_splits)
qed

lemma extrair_simples_minimo:
  assumes "fila \<noteq> []" "extrair_simples fila = ((r, no), fila')"
  shows "minimo_em r fila"
proof -
  obtain a xs where f: "fila = a # xs" using assms(1) by (cases fila) auto
  have m: "(r, no) = min_key_aux fst a xs"
    using assms(2) unfolding extrair_simples_def Let_def f by simp
  from min_key_aux_le [of fst a xs] show ?thesis
    unfolding minimo_em_def f m [symmetric] by auto
qed

lemma dijkstra_lista_heap_laco_correto:
  "inv_busca (grafo_get g) s d F V \<Longrightarrow> nao_negativo (grafo_get g) \<Longrightarrow>
     menor_caminho (grafo_get g) s d (dijkstra_lista_heap_laco g d F V)"
proof (induction g d F V rule: dijkstra_lista_heap_laco.induct)
  case (1 g d F V)
  note inv = "1.prems"(1) and nn = "1.prems"(2)
  show ?case
  proof (cases "F = []")
    case True
    with resultado_vazio [of "grafo_get g" s d V] inv nn show ?thesis by simp
  next
    case False
    obtain r no F' where pop: "heappop F = ((r, no), F')" by (metis surj_pair)
    from heappop_in [OF False pop] have rin: "(r, no) \<in> set F" and F': "F' = remove1 (r, no) F"
      by simp_all
    note rmin = heappop_minimo [OF False pop]
    show ?thesis
    proof (cases "no = d")
      case True
      with resultado_alvo [OF inv nn _ rmin] rin False pop show ?thesis by simp
    next
      case nd: False
      show ?thesis
      proof (cases "no \<in> V")
        case True
        from inv_descarta [OF inv True, of r] have "inv_busca (grafo_get g) s d F' V"
          unfolding F' .
        from "1.IH"(1) [OF False pop [symmetric] refl nd True this nn]
        show ?thesis using False pop nd True by simp
      next
        case nv: False
        from inv_visita [OF inv nn rin rmin nv nd]
        have "inv_busca (grafo_get g) s d
                (relaxar (insert no V) r F' (grafo_get g no)) (insert no V)"
          unfolding F' .
        from "1.IH"(2) [OF False pop [symmetric] refl nd nv this nn]
        show ?thesis using False pop nd nv by simp
      qed
    qed
  qed
qed

lemma dijkstra_lista_simples_laco_correto:
  "inv_busca (grafo_get g) s d F V \<Longrightarrow> nao_negativo (grafo_get g) \<Longrightarrow>
     menor_caminho (grafo_get g) s d (dijkstra_lista_simples_laco g d F V)"
proof (induction g d F V rule: dijkstra_lista_simples_laco.induct)
  case (1 g d F V)
  note inv = "1.prems"(1) and nn = "1.prems"(2)
  show ?case
  proof (cases "F = []")
    case True
    with resultado_vazio [of "grafo_get g" s d V] inv nn show ?thesis by simp
  next
    case False
    obtain r no F' where pop: "extrair_simples F = ((r, no), F')" by (metis surj_pair)
    from extrair_simples_in [OF False pop]
    have rin: "(r, no) \<in> set F" and F': "F' = remove1 (r, no) F"
      by simp_all
    note rmin = extrair_simples_minimo [OF False pop]
    show ?thesis
    proof (cases "no = d")
      case True
      with resultado_alvo [OF inv nn _ rmin] rin False pop show ?thesis by simp
    next
      case nd: False
      show ?thesis
      proof (cases "no \<in> V")
        case True
        from inv_descarta [OF inv True, of r] have "inv_busca (grafo_get g) s d F' V"
          unfolding F' .
        from "1.IH"(1) [OF False pop [symmetric] refl nd True this nn]
        show ?thesis using False pop nd True by simp
      next
        case nv: False
        from inv_visita [OF inv nn rin rmin nv nd]
        have "inv_busca (grafo_get g) s d
                (relaxar (insert no V) r F' (grafo_get g no)) (insert no V)"
          unfolding F' .
        from "1.IH"(2) [OF False pop [symmetric] refl nd nv this nn]
        show ?thesis using False pop nd nv by simp
      qed
    qed
  qed
qed

lemma relaxar_nos:
  assumes "snd ` set F \<subseteq> N" "fst ` set adj \<subseteq> N"
  shows "snd ` set (relaxar V' r (remove1 x F) adj) \<subseteq> N"
proof -
  have "snd ` set (remove1 x F) \<subseteq> snd ` set F"
    by (rule image_mono) (rule set_remove1_subset)
  then have 1: "snd ` set (remove1 x F) \<subseteq> N" using assms(1) by (rule order_trans)
  have "snd ` set (map (\<lambda>(v, w). (r + w, v)) (filter (\<lambda>(v, w). v \<notin> V') adj))
                     \<subseteq> fst ` set adj"
    by force
  then have 2: "snd ` set (map (\<lambda>(v, w). (r + w, v)) (filter (\<lambda>(v, w). v \<notin> V') adj)) \<subseteq> N"
    using assms(2) by (rule order_trans)
  have "snd ` set (relaxar V' r (remove1 x F) adj) =
      snd ` set (remove1 x F) \<union>
      snd ` set (map (\<lambda>(v, w). (r + w, v)) (filter (\<lambda>(v, w). v \<notin> V') adj))"
    unfolding relaxar_eq by (simp only: set_append image_Un)
  then show ?thesis using 1 2 by (simp only: Un_subset_iff)
qed

lemma dijkstra_matriz_heap_laco_correto:
  "inv_busca (suc_matriz m idx nodes) s d F V \<Longrightarrow> nao_negativo (suc_matriz m idx nodes) \<Longrightarrow>
   snd ` set F \<subseteq> N \<Longrightarrow> set nodes \<subseteq> N \<Longrightarrow> sem_erro m idx nodes N \<Longrightarrow>
     \<exists>res. dijkstra_matriz_heap_laco m idx nodes d F V = Inr res \<and>
           menor_caminho (suc_matriz m idx nodes) s d res"
proof (induction m idx nodes d F V rule: dijkstra_matriz_heap_laco.induct)
  case (1 m idx nodes d F V)
  note inv = "1.prems"(1) and nn = "1.prems"(2) and FN = "1.prems"(3)
    and nN = "1.prems"(4) and ok = "1.prems"(5)
  show ?case
  proof (cases "F = []")
    case True
    with resultado_vazio [of "suc_matriz m idx nodes" s d V] inv nn show ?thesis by simp
  next
    case False
    obtain r no F' where pop: "heappop F = ((r, no), F')" by (metis surj_pair)
    from heappop_in [OF False pop] have rin: "(r, no) \<in> set F" and F': "F' = remove1 (r, no) F"
      by simp_all
    note rmin = heappop_minimo [OF False pop]
    show ?thesis
    proof (cases "no = d")
      case True
      with resultado_alvo [OF inv nn _ rmin] rin False pop show ?thesis by simp
    next
      case nd: False
      show ?thesis
      proof (cases "no \<in> V")
        case True
        from inv_descarta [OF inv True, of r]
        have i': "inv_busca (suc_matriz m idx nodes) s d F' V"
          unfolding F' .
        have "snd ` set F' \<subseteq> N"
          using FN set_remove1_subset [of "(r, no)" F] unfolding F' by blast
        from "1.IH"(1) [OF False pop [symmetric] refl nd True i' nn this nN ok]
        show ?thesis using False pop nd True by simp
      next
        case nv: False
        from rin FN have "no \<in> N" by force
        with ok obtain adj where adj: "vizinhos_matriz m idx nodes no = Inr adj"
          unfolding sem_erro_def by blast
        then have suc: "suc_matriz m idx nodes no = adj" unfolding suc_matriz_def by simp
        from inv_visita [OF inv nn rin rmin nv nd]
        have i': "inv_busca (suc_matriz m idx nodes) s d
                (relaxar (insert no V) r F' adj) (insert no V)"
          unfolding F' suc .
        have "fst ` set adj \<subseteq> N" using vizinhos_matriz_nos [OF adj] nN by blast
        from relaxar_nos [OF FN this]
        have "snd ` set (relaxar (insert no V) r F' adj) \<subseteq> N" unfolding F' .
        from "1.IH"(2) [OF False pop [symmetric] refl nd nv adj i' nn this nN ok]
        show ?thesis using False pop nd nv adj by simp
      qed
    qed
  qed
qed

lemma dijkstra_matriz_simples_laco_correto:
  "inv_busca (suc_matriz m idx nodes) s d F V \<Longrightarrow> nao_negativo (suc_matriz m idx nodes) \<Longrightarrow>
   snd ` set F \<subseteq> N \<Longrightarrow> set nodes \<subseteq> N \<Longrightarrow> sem_erro m idx nodes N \<Longrightarrow>
     \<exists>res. dijkstra_matriz_simples_laco m idx nodes d F V = Inr res \<and>
           menor_caminho (suc_matriz m idx nodes) s d res"
proof (induction m idx nodes d F V rule: dijkstra_matriz_simples_laco.induct)
  case (1 m idx nodes d F V)
  note inv = "1.prems"(1) and nn = "1.prems"(2) and FN = "1.prems"(3)
    and nN = "1.prems"(4) and ok = "1.prems"(5)
  show ?case
  proof (cases "F = []")
    case True
    with resultado_vazio [of "suc_matriz m idx nodes" s d V] inv nn show ?thesis by simp
  next
    case False
    obtain r no F' where pop: "extrair_simples F = ((r, no), F')" by (metis surj_pair)
    from extrair_simples_in [OF False pop] have rin: "(r, no) \<in> set F" and F': "F' = remove1 (r, no) F"
      by simp_all
    note rmin = extrair_simples_minimo [OF False pop]
    show ?thesis
    proof (cases "no = d")
      case True
      with resultado_alvo [OF inv nn _ rmin] rin False pop show ?thesis by simp
    next
      case nd: False
      show ?thesis
      proof (cases "no \<in> V")
        case True
        from inv_descarta [OF inv True, of r]
        have i': "inv_busca (suc_matriz m idx nodes) s d F' V"
          unfolding F' .
        have "snd ` set F' \<subseteq> N"
          using FN set_remove1_subset [of "(r, no)" F] unfolding F' by blast
        from "1.IH"(1) [OF False pop [symmetric] refl nd True i' nn this nN ok]
        show ?thesis using False pop nd True by simp
      next
        case nv: False
        from rin FN have "no \<in> N" by force
        with ok obtain adj where adj: "vizinhos_matriz m idx nodes no = Inr adj"
          unfolding sem_erro_def by blast
        then have suc: "suc_matriz m idx nodes no = adj" unfolding suc_matriz_def by simp
        from inv_visita [OF inv nn rin rmin nv nd]
        have i': "inv_busca (suc_matriz m idx nodes) s d
                (relaxar (insert no V) r F' adj) (insert no V)"
          unfolding F' suc .
        have "fst ` set adj \<subseteq> N" using vizinhos_matriz_nos [OF adj] nN by blast
        from relaxar_nos [OF FN this]
        have "snd ` set (relaxar (insert no V) r F' adj) \<subseteq> N" unfolding F' .
        from "1.IH"(2) [OF False pop [symmetric] refl nd nv adj i' nn this nN ok]
        show ?thesis using False pop nd nv adj by simp
      qed
    qed
  qed
qed

section \<open>Well-formed inputs\<close>

lemma nao_negativo_lista: "pesos_nao_negativos g \<Longrightarrow> nao_negativo (grafo_get g)"
  unfolding nao_negativo_def
proof (intro allI impI)
  fix v x w assume nn: "pesos_nao_negativos g" and e: "(x, w) \<in> set (grafo_get g v)"
  then obtain adj where "map_of g v = Some adj" "(x, w) \<in> set adj"
    unfolding grafo_get_def by (cases "map_of g v") auto
  moreover from this(1) have "(v, adj) \<in> set g" by (rule map_of_SomeD)
  ultimately show "0 \<le> w" using nn unfolding pesos_nao_negativos_def by blast
qed

lemma arestas_linha_celulas:
  "arestas_linha nodes cs = Inr r \<Longrightarrow> (x, w) \<in> set r \<Longrightarrow> \<exists>j. (j, Km w) \<in> set cs \<and> x = nodes ! j"
proof (induction nodes cs arbitrary: r rule: arestas_linha.induct)
  case (1 nodes)
  then show ?case by simp
next
  case (2 nodes j cs)
  then show ?case by auto
next
  case (3 nodes j peso cs)
  show ?case
  proof (cases "j < length nodes")
    case True
    with 3(2) obtain r' where r': "arestas_linha nodes cs = Inr r'" "r = (nodes ! j, peso) # r'"
      by (auto split: sum.splits)
    show ?thesis
    proof (cases "(x, w) = (nodes ! j, peso)")
      case True
      then show ?thesis by auto
    next
      case False
      with 3(3) r'(2) have "(x, w) \<in> set r'" by auto
      from 3(1) [OF True r'(1) this] show ?thesis by auto
    qed
  next
    case False
    with 3(2) show ?thesis by simp
  qed
qed

lemma arestas_linha_sem_erro:
  "(\<forall>(j, c) \<in> set cs. j < length nodes) \<Longrightarrow> \<exists>r. arestas_linha nodes cs = Inr r"
proof (induction nodes cs rule: arestas_linha.induct)
  case (1 nodes)
  then show ?case by simp
next
  case (2 nodes j cs)
  then show ?case by simp
next
  case (3 nodes j peso cs)
  then have j: "j < length nodes" by simp
  from 3(2) have "\<forall>(j, c) \<in> set cs. j < length nodes" by simp
  from 3(1) [OF j this] obtain r where "arestas_linha nodes cs = Inr r" by blast
  with j show ?case by simp
qed

lemma nao_negativo_matriz:
  assumes "matriz_nao_negativa m"
  shows "nao_negativo (suc_matriz m idx nodes)"
  unfolding nao_negativo_def
proof (intro allI impI)
  fix v x w assume e: "(x, w) \<in> set (suc_matriz m idx nodes v)"
  then obtain adj where adj: "vizinhos_matriz m idx nodes v = Inr adj" and xw: "(x, w) \<in> set adj"
    unfolding suc_matriz_def by (cases "vizinhos_matriz m idx nodes v") auto
  from adj obtain i where i: "i < length m"
    and ar: "arestas_linha nodes (enumerate 0 (m ! i)) = Inr adj"
    unfolding vizinhos_matriz_def by (auto split: option.splits if_splits)
  from arestas_linha_celulas [OF ar xw] obtain j where "(j, Km w) \<in> set (enumerate 0 (m ! i))"
    by blast
  then have "Km w \<in> set (m ! i)" by (auto simp: in_set_enumerate_eq dest: nth_mem)
  moreover have "m ! i \<in> set m" using i by simp
  ultimately have "celula_nao_negativa (Km w)"
    using assms unfolding matriz_nao_negativa_def by blast
  then show "0 \<le> w" by (simp add: celula_nao_negativa_def)
qed

lemma vizinhos_matriz_sem_erro:
  assumes "\<forall>linha \<in> set m. length linha \<le> length nodes" "idx n = Some i" "i < length m"
  shows "\<exists>adj. vizinhos_matriz m idx nodes n = Inr adj"
proof -
  have "m ! i \<in> set m" using assms(3) by simp
  with assms(1) have "length (m ! i) \<le> length nodes" by blast
  then have "\<forall>(j, c) \<in> set (enumerate 0 (m ! i)). j < length nodes"
    by (auto simp: in_set_enumerate_eq)
  from arestas_linha_sem_erro [OF this] show ?thesis
    using assms(2,3) unfolding vizinhos_matriz_def by simp
qed

lemma sem_erro_bem_formada:
  assumes "matriz_bem_formada m idx nodes"
  shows "sem_erro m idx nodes (set nodes)"
  unfolding sem_erro_def
proof
  fix n assume "n \<in> set nodes"
  with assms obtain i where "idx n = Some i" "i < length m"
    unfolding matriz_bem_formada_def by (cases "idx n") force+
  with vizinhos_matriz_sem_erro [of m nodes idx n i] assms
  show "\<exists>adj. vizinhos_matriz m idx nodes n = Inr adj"
    unfolding matriz_bem_formada_def by blast
qed

lemma lista_heap_correto:
  "pesos_nao_negativos g \<Longrightarrow>
     menor_caminho (grafo_get g) s d (dijkstra_lista_heap g s d)"
  unfolding dijkstra_lista_heap_def
  by (rule dijkstra_lista_heap_laco_correto [OF inv_inicial nao_negativo_lista])

lemma lista_simples_correto:
  "pesos_nao_negativos g \<Longrightarrow>
     menor_caminho (grafo_get g) s d (dijkstra_lista_simples g s d)"
  unfolding dijkstra_lista_simples_def
  by (rule dijkstra_lista_simples_laco_correto [OF inv_inicial nao_negativo_lista])

lemma matriz_heap_correto:
  assumes "matriz_nao_negativa m" "sem_erro m idx nodes N" "set nodes \<subseteq> N" "s \<in> N"
  shows "\<exists>res. dijkstra_matriz_heap m idx nodes s d = Inr res \<and>
               menor_caminho (suc_matriz m idx nodes) s d res"
  unfolding dijkstra_matriz_heap_def
  using assms(4)
  by (intro dijkstra_matriz_heap_laco_correto [OF inv_inicial nao_negativo_matriz [OF assms(1)]
        _ assms(3) assms(2)]) simp

lemma matriz_simples_correto:
  assumes "matriz_nao_negativa m" "sem_erro m idx nodes N" "set nodes \<subseteq> N" "s \<in> N"
  shows "\<exists>res. dijkstra_matriz_simples m idx nodes s d = Inr res \<and>
               menor_caminho (suc_matriz m idx nodes) s d res"
  unfolding dijkstra_matriz_simples_def
  using assms(4)
  by (intro dijkstra_matriz_simples_laco_correto [OF inv_inicial nao_negativo_matriz [OF assms(1)]
        _ assms(3) assms(2)]) simp

section \<open>Scaled graphs\<close>













section \<open>The concrete tables\<close>

text \<open>
  The two structures built from the tables, written out; later evaluations start from
  these values.
\<close>

lemma grafo0_valor [code]:
  "grafo0 =
     [(belem,
     [(rio_de_janeiro, 3200), (porto_alegre, 4000), (salvador, 2100),
     (manaus, 2500), (curitiba, 3800), (natal, 1900), (goiania, 2000),
     (fortaleza, 1600), (belo_horizonte, 3000), (vitoria, 3100)]),
     (rio_de_janeiro,
     [(belem, 3200), (recife, 2300), (brasilia, 1150), (sao_paulo, 450),
     (florianopolis, 1100)]),
     (porto_alegre,
     [(belem, 4000), (recife, 3600), (brasilia, 2100), (sao_paulo, 1100),
     (florianopolis, 470)]),
     (salvador,
     [(belem, 2100), (recife, 800), (brasilia, 1500), (sao_paulo, 2000),
     (florianopolis, 2500)]),
     (manaus,
     [(belem, 2500), (recife, 4300), (brasilia, 3900), (sao_paulo, 4300),
     (florianopolis, 4600)]),
     (curitiba,
     [(belem, 3800), (recife, 3400), (brasilia, 1400), (sao_paulo, 400),
     (florianopolis, 650)]),
     (natal,
     [(belem, 1900), (recife, 300), (brasilia, 2200), (sao_paulo, 2900),
     (florianopolis, 3200)]),
     (goiania,
     [(belem, 2000), (recife, 2400), (brasilia, 210), (sao_paulo, 900),
     (florianopolis, 1800)]),
     (fortaleza,
     [(belem, 1600), (recife, 800), (brasilia, 2200), (sao_paulo, 3000),
     (florianopolis, 3500)]),
     (belo_horizonte,
     [(belem, 3000), (recife, 2400), (brasilia, 740), (sao_paulo, 590),
     (florianopolis, 1500)]),
     (vitoria,
     [(belem, 3100), (recife, 2200), (brasilia, 1300), (sao_paulo, 880),
     (florianopolis, 500)]),
     (recife,
     [(rio_de_janeiro, 2300), (porto_alegre, 3600), (salvador, 800),
     (manaus, 4300), (curitiba, 3400), (natal, 300), (goiania, 2400),
     (fortaleza, 800), (belo_horizonte, 2400), (vitoria, 2200)]),
     (brasilia,
     [(rio_de_janeiro, 1150), (porto_alegre, 2100), (salvador, 1500),
     (manaus, 3900), (curitiba, 1400), (natal, 2200), (goiania, 210),
     (fortaleza, 2200), (belo_horizonte, 740), (vitoria, 1300)]),
     (sao_paulo,
     [(rio_de_janeiro, 450), (porto_alegre, 1100), (salvador, 2000),
     (manaus, 4300), (curitiba, 400), (natal, 2900), (goiania, 900),
     (fortaleza, 3000), (belo_horizonte, 590), (vitoria, 880)]),
     (florianopolis,
     [(rio_de_janeiro, 1100), (porto_alegre, 470), (salvador, 2500),
     (manaus, 4600), (curitiba, 650), (natal, 3200), (goiania, 1800),
     (fortaleza, 3500), (belo_horizonte, 1500), (vitoria, 500)])]"
  by code_simp

lemma matriz0_valor [code]:
  "matriz0 =
     [[Infinito, Infinito, Infinito, Infinito, Infinito, Km 3200, Km 4000,
     Km 2100, Km 2500, Km 3800, Km 1900, Km 2000, Km 1600, Km 3000, Km 3100],
     [Infinito, Infinito, Infinito, Infinito, Infinito, Km 2300, Km 3600,
     Km 800, Km 4300, Km 3400, Km 300, Km 2400, Km 800, Km 2400, Km 2200],
     [Infinito, Infinito, Infinito, Infinito, Infinito, Km 1150, Km 2100,
     Km 1500, Km 3900, Km 1400, Km 2200, Km 210, Km 2200, Km 740, Km 1300],
     [Infinito, Infinito, Infinito, Infinito, Infinito, Km 450, Km 1100,
     Km 2000, Km 4300, Km 400, Km 2900, Km 900, Km 3000, Km 590, Km 880],
     [Infinito, Infinito, Infinito, Infinito, Infinito, Km 1100, Km 470,
     Km 2500, Km 4600, Km 650, Km 3200, Km 1800, Km 3500, Km 1500, Km 500],
     [Infinito, Infinito, Infinito, Infinito, Infinito, Infinito, Infinito,
     Infinito, Infinito, Infinito, Infinito, Infinito, Infinito, Infinito,
     Infinito],
     [Infinito, Infinito, Infinito, Infinito, Infinito, Infinito, Infinito,
     Infinito, Infinito, Infinito, Infinito, Infinito, Infinito, Infinito,
     Infinito],
     [Infinito, Infinito, Infinito, Infinito, Infinito, Infinito, Infinito,
     Infinito, Infinito, Infinito, Infinito, Infinito, Infinito, Infinito,
     Infinito],
     [Infinito, Infinito, Infinito, Infinito, Infinito, Infinito, Infinito,
     Infinito, Infinito, Infinito, Infinito, Infinito, Infinito, Infinito,
     Infinito],
     [Infinito, Infinito, Infinito, Infinito, Infinito, Infinito, Infinito,
     Infinito, Infinito, Infinito, Infinito, Infinito, Infinito, Infinito,
     Infinito],
     [Infinito, Infinito, Infinito, Infinito, Infinito, Infinito, Infinito,
     Infinito, Infinito, Infinito, Infinito, Infinito, Infinito, Infinito,
     Infinito],
     [Infinito, Infinito, Infinito, Infinito, Infinito, Infinito, Infinito,
     Infinito, Infinito, Infinito, Infinito, Infinito, Infinito, Infinito,
     Infinito],
     [Infinito, Infinito, Infinito, Infinito, Infinito, Infinito, Infinito,
     Infinito, Infinito, Infinito, Infinito, Infinito, Infinito, Infinito,
     Infinito],
     [Infinito, Infinito, Infinito, Infinito, Infinito, Infinito, Infinito,
     Infinito, Infinito, Infinito, Infinito, Infinito, Infinito, Infinito,
     Infinito],
     [Infinito, Infinito, Infinito, Infinito, Infinito, Infinito, Infinito,
     Infinito, Infinito, Infinito, Infinito, Infinito, Infinito, Infinito,
     Infinito]]"
  by code_simp

lemma preencher0:
  "preencher from_distancias idx0 centros_distribuicao cidades_destino
     (replicate (length nodes0) (replicate (length nodes0) Infinito)) = Inr matriz0"
  by code_simp

lemma gerar_matriz_adjacencia0:
  "gerar_matriz_adjacencia centros_distribuicao cidades_destino from_distancias =
     Inr (matriz0, idx0, nodes0)"
  unfolding gerar_matriz_adjacencia_def Let_def
  using preencher0 unfolding idx0_def nodes0_def by simp

lemma grafo0_nao_negativo: "pesos_nao_negativos grafo0"
  by code_simp

lemma matriz0_bem_formada: "matriz_bem_formada matriz0 idx0 nodes0"
  by code_simp

lemma matriz0_nao_negativa: "matriz_nao_negativa matriz0"
  by code_simp

lemma lista_heap_sp_rj: "dijkstra_lista_heap grafo0 sao_paulo rio_de_janeiro = Km 450"
  by code_simp

lemma lista_simples_sp_rj: "dijkstra_lista_simples grafo0 sao_paulo rio_de_janeiro = Km 450"
  by code_simp

lemma matriz_heap_sp_rj:
  "dijkstra_matriz_heap matriz0 idx0 nodes0 sao_paulo rio_de_janeiro = Inr (Km 450)"
  by code_simp

lemma matriz_simples_sp_rj:
  "dijkstra_matriz_simples matriz0 idx0 nodes0 sao_paulo rio_de_janeiro = Inr (Km 450)"
  by code_simp

lemma sao_paulo_em_nodes0: "sao_paulo \<in> set nodes0"
  by code_simp

lemma matriz_primeiro_erro:
  assumes "s \<noteq> d" "vizinhos_matriz m idx nodes s = Inl e"
  shows "dijkstra_matriz_heap m idx nodes s d = Inl e"
    and "dijkstra_matriz_simples m idx nodes s d = Inl e"
  using assms
  by (simp_all add: dijkstra_matriz_heap_def dijkstra_matriz_simples_def heappop_singleton
      extrair_simples_singleton)

lemma sem_erro_insert:
  "sem_erro m idx nodes N \<Longrightarrow> vizinhos_matriz m idx nodes s = Inr adj \<Longrightarrow>
     sem_erro m idx nodes (insert s N)"
  unfolding sem_erro_def by simp

lemma matriz_heap_igual_simples:
  assumes wf: "matriz_bem_formada m idx nodes" and nn: "matriz_nao_negativa m"
  shows "dijkstra_matriz_heap m idx nodes s d = dijkstra_matriz_simples m idx nodes s d"
proof (cases "s = d")
  case True
  then show ?thesis
    by (simp add: dijkstra_matriz_heap_def dijkstra_matriz_simples_def heappop_singleton
        extrair_simples_singleton)
next
  case sd: False
  show ?thesis
  proof (cases "vizinhos_matriz m idx nodes s")
    case (Inl e)
    from matriz_primeiro_erro [OF sd Inl] show ?thesis by simp
  next
    case (Inr adj)
    let ?N = "insert s (set nodes)"
    have ok: "sem_erro m idx nodes ?N"
      by (rule sem_erro_insert [OF sem_erro_bem_formada [OF wf] Inr])
    from matriz_heap_correto [OF nn ok, of s d]
    obtain a where a: "dijkstra_matriz_heap m idx nodes s d = Inr a"
      "menor_caminho (suc_matriz m idx nodes) s d a" by auto
    from matriz_simples_correto [OF nn ok, of s d]
    obtain b where b: "dijkstra_matriz_simples m idx nodes s d = Inr b"
      "menor_caminho (suc_matriz m idx nodes) s d b" by auto
    from menor_caminho_unico [OF a(2) b(2)] a(1) b(1) show ?thesis by simp
  qed
qed



section \<open>Origin equal to destination\<close>

text \<open>
  Claim C10. When the origin is the destination, each of the four functions returns 0:
  the first entry extracted is \<open>(0, origem)\<close> and the test \<^verbatim>\<open>no == destino\<close> comes
  before the visited test, before \<^verbatim>\<open>idx[no]\<close> and before any neighbour is read. So
  this holds for every graph, matrix, index and node list, also when the node has no
  outgoing edge or does not occur in them.
\<close>

theorem origem_igual_destino:
  "dijkstra_lista_heap grafo n n = Km 0 \<and>
   dijkstra_lista_simples grafo n n = Km 0 \<and>
   dijkstra_matriz_heap matriz idx nodes n n = Inr (Km 0) \<and>
   dijkstra_matriz_simples matriz idx nodes n n = Inr (Km 0)"
  by (simp add: dijkstra_lista_heap_def dijkstra_lista_simples_def dijkstra_matriz_heap_def
      dijkstra_matriz_simples_def heappop_singleton extrair_simples_singleton)

section \<open>Correctness of the four strategies\<close>

text \<open>
  Claim C1. On a graph with non-negative weights each of the four functions returns the
  length of a shortest path from the origin to the destination in the representation it
  queries, and \<open>Infinito\<close> exactly when the destination cannot be reached, whatever
  duplicates the frontier holds and although the search stops at the first extraction of
  the destination. For the matrix variants the matrix is well formed (every node of
  \<open>nodes\<close> has a row, no row is longer than \<open>nodes\<close>) and the origin is one of its nodes,
  so that no lookup raises.
\<close>

theorem dijkstra_menor_caminho:
  "(pesos_nao_negativos grafo \<longrightarrow>
      menor_caminho (grafo_get grafo) origem destino (dijkstra_lista_heap grafo origem destino) \<and>
      menor_caminho (grafo_get grafo) origem destino
        (dijkstra_lista_simples grafo origem destino)) \<and>
   (matriz_bem_formada matriz idx nodes \<and> matriz_nao_negativa matriz \<and> origem \<in> set nodes \<longrightarrow>
      (\<exists>res. dijkstra_matriz_heap matriz idx nodes origem destino = Inr res \<and>
             menor_caminho (suc_matriz matriz idx nodes) origem destino res) \<and>
      (\<exists>res. dijkstra_matriz_simples matriz idx nodes origem destino = Inr res \<and>
             menor_caminho (suc_matriz matriz idx nodes) origem destino res))"
proof (intro conjI impI)
  assume "pesos_nao_negativos grafo"
  then show "menor_caminho (grafo_get grafo) origem destino
               (dijkstra_lista_heap grafo origem destino)"
    by (rule lista_heap_correto)
next
  assume "pesos_nao_negativos grafo"
  then show "menor_caminho (grafo_get grafo) origem destino
               (dijkstra_lista_simples grafo origem destino)"
    by (rule lista_simples_correto)
next
  assume a: "matriz_bem_formada matriz idx nodes \<and> matriz_nao_negativa matriz \<and> origem \<in> set nodes"
  then show "\<exists>res. dijkstra_matriz_heap matriz idx nodes origem destino = Inr res \<and>
             menor_caminho (suc_matriz matriz idx nodes) origem destino res"
    by (intro matriz_heap_correto [where N = "set nodes"] sem_erro_bem_formada) simp_all
next
  assume a: "matriz_bem_formada matriz idx nodes \<and> matriz_nao_negativa matriz \<and> origem \<in> set nodes"
  then show "\<exists>res. dijkstra_matriz_simples matriz idx nodes origem destino = Inr res \<and>
             menor_caminho (suc_matriz matriz idx nodes) origem destino res"
    by (intro matriz_simples_correto [where N = "set nodes"] sem_erro_bem_formada) simp_all
qed

theorem dijkstra_menor_caminho_witness:
  "pesos_nao_negativos grafo0 \<and>
   matriz_bem_formada matriz0 idx0 nodes0 \<and> matriz_nao_negativa matriz0 \<and>
   sao_paulo \<in> set nodes0 \<and>
   menor_caminho (grafo_get grafo0) sao_paulo rio_de_janeiro (Km 450) \<and>
   menor_caminho (suc_matriz matriz0 idx0 nodes0) sao_paulo rio_de_janeiro (Km 450)"
  using dijkstra_menor_caminho [of grafo0 sao_paulo rio_de_janeiro matriz0 idx0 nodes0]
    grafo0_nao_negativo matriz0_bem_formada matriz0_nao_negativa sao_paulo_em_nodes0
  unfolding lista_heap_sp_rj lista_simples_sp_rj matriz_heap_sp_rj matriz_simples_sp_rj
  by auto

text \<open>
  Claim C2. Over the same representation the heap and the linear-scan variant return the
  same result for every origin and destination: on every adjacency-list graph with
  non-negative weights, and on every well-formed matrix with non-negative cells (there
  also when the origin is unknown to \<open>idx\<close>: both raise the same \<open>KeyError\<close>).
\<close>

theorem heap_igual_simples:
  "(pesos_nao_negativos grafo \<longrightarrow>
      dijkstra_lista_heap grafo origem destino = dijkstra_lista_simples grafo origem destino) \<and>
   (matriz_bem_formada matriz idx nodes \<and> matriz_nao_negativa matriz \<longrightarrow>
      dijkstra_matriz_heap matriz idx nodes origem destino =
      dijkstra_matriz_simples matriz idx nodes origem destino)"
proof (intro conjI impI)
  assume nn: "pesos_nao_negativos grafo"
  show "dijkstra_lista_heap grafo origem destino = dijkstra_lista_simples grafo origem destino"
    by (rule menor_caminho_unico [OF lista_heap_correto [OF nn] lista_simples_correto [OF nn]])
next
  assume "matriz_bem_formada matriz idx nodes \<and> matriz_nao_negativa matriz"
  then show "dijkstra_matriz_heap matriz idx nodes origem destino =
      dijkstra_matriz_simples matriz idx nodes origem destino"
    using matriz_heap_igual_simples by blast
qed

theorem heap_igual_simples_witness:
  "pesos_nao_negativos grafo0 \<and>
   matriz_bem_formada matriz0 idx0 nodes0 \<and> matriz_nao_negativa matriz0 \<and>
   dijkstra_lista_simples grafo0 sao_paulo rio_de_janeiro = Km 450 \<and>
   dijkstra_matriz_simples matriz0 idx0 nodes0 sao_paulo rio_de_janeiro = Inr (Km 450)"
proof -
  note h = heap_igual_simples [of grafo0 sao_paulo rio_de_janeiro matriz0 idx0 nodes0]
  have "dijkstra_lista_simples grafo0 sao_paulo rio_de_janeiro = Km 450"
    using h grafo0_nao_negativo lista_heap_sp_rj by simp
  moreover have "dijkstra_matriz_simples matriz0 idx0 nodes0 sao_paulo rio_de_janeiro = Inr (Km 450)"
    using h matriz0_bem_formada matriz0_nao_negativa matriz_heap_sp_rj by simp
  ultimately show ?thesis
    using grafo0_nao_negativo matriz0_bem_formada matriz0_nao_negativa by simp
qed

section \<open>Scaling and shortest distances\<close>




section \<open>Ties in the frontier\<close>

lemma min_key_aux_primeiro:
  "\<exists>pre post. m # xs = pre @ min_key_aux key m xs # post \<and>
     (\<forall>x \<in> set pre. key (min_key_aux key m xs) < key x) \<and>
     (\<forall>x \<in> set post. key (min_key_aux key m xs) \<le> key x)"
proof (induction xs arbitrary: m)
  case Nil
  show ?case by (intro exI [of _ "[]"]) simp
next
  case (Cons a xs)
  let ?m' = "if key a < key m then a else m"
  let ?res = "min_key_aux key ?m' xs"
  from Cons.IH [of ?m'] obtain pre post where d: "?m' # xs = pre @ ?res # post"
    and pre: "\<forall>x \<in> set pre. key ?res < key x"
    and post: "\<forall>x \<in> set post. key ?res \<le> key x" by blast
  have res: "min_key_aux key m (a # xs) = ?res" by simp
  have le: "key ?res \<le> key ?m'"
    using d pre by (cases pre) (auto simp: less_imp_le)
  show ?case
  proof (cases "key a < key m")
    case True
    then have d': "m # a # xs = (m # pre) @ ?res # post" using d by simp
    have "\<forall>x \<in> set (m # pre). key ?res < key x" using pre le True by auto
    with d' post show ?thesis unfolding res by blast
  next
    case False
    have d0: "m # xs = pre @ min_key_aux key m xs # post"
      using d False by (simp only: if_False)
    show ?thesis
    proof (cases pre)
      case Nil
      have "m # xs = min_key_aux key m xs # post"
        using d0 unfolding Nil by (simp only: append_Nil)
      then have e: "m = min_key_aux key m xs \<and> xs = post" by (rule list.inject [THEN iffD1])
      have mres: "?res = min_key_aux key m xs" using False by (simp only: if_False)
      have r: "?res = m" "post = xs"
        unfolding mres by (rule e [THEN conjunct1, symmetric], rule e [THEN conjunct2, symmetric])
      have "m # a # xs = [] @ ?res # (a # xs)" using r(1) by simp
      moreover have "\<forall>x \<in> set (a # xs). key ?res \<le> key x"
        using post r False by auto
      ultimately show ?thesis unfolding res by (intro exI [of _ "[]"] exI [of _ "a # xs"]) simp
    next
      case (Cons p pre')
      have "m # xs = p # (pre' @ min_key_aux key m xs # post)"
        using d0 unfolding Cons by (simp only: append_Cons)
      then have e: "m = p \<and> xs = pre' @ min_key_aux key m xs # post"
        by (rule list.inject [THEN iffD1])
      have mres: "?res = min_key_aux key m xs" using False by (simp only: if_False)
      have p: "p = m" "xs = pre' @ ?res # post"
        unfolding mres by (rule e [THEN conjunct1, symmetric], rule e [THEN conjunct2])
      have lt: "key ?res < key m" using pre Cons p(1) by simp
      have "m # a # xs = (m # a # pre') @ ?res # post" using p(2) by simp
      moreover have "\<forall>x \<in> set (m # a # pre'). key ?res < key x"
        using pre Cons lt False by auto
      ultimately show ?thesis using post unfolding res by blast
    qed
  qed
qed

lemma remove1_primeiro: "x \<notin> set pre \<Longrightarrow> remove1 x (pre @ x # post) = pre @ post"
  by (induction pre) auto

lemma extrair_simples_primeiro:
  assumes "fila \<noteq> []"
  shows "\<exists>pre post r no. extrair_simples fila = ((r, no), pre @ post) \<and>
           fila = pre @ (r, no) # post \<and>
           (\<forall>x \<in> set pre. r < fst x) \<and> (\<forall>x \<in> set post. r \<le> fst x)"
proof -
  obtain a xs where f: "fila = a # xs" using assms by (cases fila) auto
  obtain r no where rn: "min_key_aux fst a xs = (r, no)" by (metis surj_pair)
  from min_key_aux_primeiro [of a xs fst] obtain pre post
    where d: "fila = pre @ (r, no) # post" and pre: "\<forall>x \<in> set pre. r < fst x"
      and post: "\<forall>x \<in> set post. r \<le> fst x"
    unfolding f rn by auto
  from pre have "(r, no) \<notin> set pre" by force
  then have "remove1 (r, no) fila = pre @ post" unfolding d by (rule remove1_primeiro)
  then have "extrair_simples fila = ((r, no), pre @ post)"
    unfolding extrair_simples_def Let_def using rn f by simp
  with d pre post show ?thesis by blast
qed

lemma heappop_desempate:
  assumes "heap \<noteq> []"
  shows "\<exists>r no. heappop heap = ((r, no), remove1 (r, no) heap) \<and> (r, no) \<in> set heap \<and>
           (\<forall>(r', y) \<in> set heap. r < r' \<or> (r = r' \<and> no \<le> y))"
proof -
  obtain r no where m: "Min (set heap) = (r, no)" by (metis surj_pair)
  have "(r, no) \<in> set heap" using Min_in [of "set heap"] assms m by simp
  moreover have "r < r' \<or> (r = r' \<and> no \<le> y)" if "(r', y) \<in> set heap" for r' y
  proof -
    from that have "(r, no) \<le> (r', y)" unfolding m [symmetric] by simp
    then show ?thesis by (auto simp: less_eq_prod_def)
  qed
  ultimately show ?thesis unfolding heappop_def Let_def m by blast
qed

text \<open>
  Claim C8, as stated for all four strategies, fails for the two linear-scan ones. After
  the origin \<open>a\<close> with neighbours \<open>c\<close> and \<open>b\<close>, both at distance 1, was expanded, the
  frontier is \<open>[(1, c), (1, b)]\<close>: \<^verbatim>\<open>min(fila, key=lambda x: x[0])\<close> extracts
  \<open>(1, c)\<close>, the earlier entry, although \<open>b < c\<close>; \<^verbatim>\<open>heappop\<close> extracts \<open>(1, b)\<close>.
\<close>

theorem desempate_simples_counterexample:
  "relaxar {''a''} 0 [] [(''c'', 1), (''b'', 1)] = [(1, ''c''), (1, ''b'')] \<and>
   extrair_simples [(1, ''c''), (1, ''b'')] = ((1, ''c''), [(1, ''b'')]) \<and>
   heappop [(1 :: real, ''c''), (1, ''b'')] = ((1, ''b''), [(1, ''c'')]) \<and>
   ''b'' < ''c''"
  by code_simp

text \<open>
  Claim C8, amended. In the two heap strategies the extracted entry is the least one in
  the lexicographic order of \<open>(dist, no)\<close>: among entries of the same distance the one with
  the least node identifier comes out. In the two linear-scan strategies only distances
  are compared: the extracted entry is the earliest entry of the list whose distance is
  minimal, so a tie goes to the entry inserted first and node identifiers are never
  compared.
\<close>

theorem desempate_na_fronteira:
  assumes "fronteira \<noteq> []"
  shows "(\<exists>r no. heappop fronteira = ((r, no), remove1 (r, no) fronteira) \<and>
            (r, no) \<in> set fronteira \<and>
            (\<forall>(r', y) \<in> set fronteira. r < r' \<or> (r = r' \<and> no \<le> y))) \<and>
         (\<exists>pre post r no. extrair_simples fronteira = ((r, no), pre @ post) \<and>
            fronteira = pre @ (r, no) # post \<and>
            (\<forall>x \<in> set pre. r < fst x) \<and> (\<forall>x \<in> set post. r \<le> fst x))"
  using heappop_desempate [OF assms] extrair_simples_primeiro [OF assms] by blast

theorem desempate_na_fronteira_witness:
  "[(1::real, ''c''), (1, ''b'')] \<noteq> [] \<and>
   (\<exists>pre post r no. extrair_simples [(1::real, ''c''), (1, ''b'')] = ((r, no), pre @ post) \<and>
      [(1::real, ''c''), (1, ''b'')] = pre @ (r, no) # post)"
  using desempate_na_fronteira [of "[(1::real, ''c''), (1, ''b'')]"] by blast

section \<open>The adjacency list against the matrix\<close>

lemma grafo0_simetrico: "simetrico grafo0"
  by code_simp

lemma tabela0_coerente: "tabela_coerente"
  by code_simp

lemma matriz0_linhas: "linhas_da_matriz"
  by code_simp

lemma nodes0_todos: "set centros_distribuicao \<union> set cidades_destino \<subseteq> set nodes0"
  by (simp add: nodes0_def)

lemma caminho_aresta: "(x, w) \<in> set (suc v) \<Longrightarrow> caminho suc v w x"
  using caminho_passo [OF caminho_vazio, of x w suc v] by simp

lemma caminho_concat:
  "caminho suc v l' x \<Longrightarrow> caminho suc s l v \<Longrightarrow> caminho suc s (l + l') x"
proof (induction rule: caminho.induct)
  case caminho_vazio
  then show ?case by simp
next
  case (caminho_passo l' y x w)
  from caminho.caminho_passo [OF caminho_passo.IH [OF caminho_passo.prems] caminho_passo.hyps(2)]
  show ?case by (simp add: add.assoc)
qed

lemma caminho_inverso:
  assumes sym: "\<And>u v w. (v, w) \<in> set (suc u) \<Longrightarrow> (u, w) \<in> set (suc v)"
  shows "caminho suc s l v \<Longrightarrow> caminho suc v l s"
proof (induction rule: caminho.induct)
  case caminho_vazio
  show ?case by (rule caminho.caminho_vazio)
next
  case (caminho_passo l v x w)
  from sym [OF caminho_passo.hyps(2)] have "caminho suc x w v" by (rule caminho_aresta)
  from caminho_concat [OF caminho_passo.IH this] show ?case by (simp add: add.commute)
qed

lemma simetrico_grafo_get:
  assumes "simetrico g" "(v, w) \<in> set (grafo_get g u)"
  shows "(u, w) \<in> set (grafo_get g v)"
proof -
  from assms(2) obtain adj where "map_of g u = Some adj" "(v, w) \<in> set adj"
    unfolding grafo_get_def by (cases "map_of g u") auto
  moreover from this(1) have "(u, adj) \<in> set g" by (rule map_of_SomeD)
  ultimately show ?thesis using assms(1) unfolding simetrico_def by blast
qed

lemma menor_caminho_inverso:
  assumes sym: "\<And>u v w. (v, w) \<in> set (suc u) \<Longrightarrow> (u, w) \<in> set (suc v)"
    and m: "menor_caminho suc s d res"
  shows "menor_caminho suc d s res"
proof -
  have eq: "caminho suc d l s = caminho suc s l d" for l
    using caminho_inverso [of suc, OF sym] by blast
  show ?thesis using m unfolding menor_caminho_def eq .
qed

lemma esparso_ida_e_volta:
  assumes nn: "pesos_nao_negativos g" and sym: "simetrico g"
    and e: "(d, w) \<in> set (grafo_get g c)"
  shows "\<exists>r. r \<le> w \<and>
           dijkstra_lista_heap g c d = Km r \<and> dijkstra_lista_simples g c d = Km r \<and>
           dijkstra_lista_heap g d c = Km r \<and> dijkstra_lista_simples g d c = Km r"
proof -
  note s = simetrico_grafo_get [OF sym]
  have cw: "caminho (grafo_get g) c w d" using e by (rule caminho_aresta)
  note h = lista_heap_correto [OF nn, of c d]
  with cw obtain r where r: "dijkstra_lista_heap g c d = Km r"
    unfolding menor_caminho_def by (cases "dijkstra_lista_heap g c d") auto
  from h cw have le: "r \<le> w" unfolding r menor_caminho_def by simp
  note m = h [unfolded r]
  from menor_caminho_unico [OF lista_simples_correto [OF nn, of c d] m]
  have 2: "dijkstra_lista_simples g c d = Km r" .
  note m' = menor_caminho_inverso [of "grafo_get g", OF s m]
  from menor_caminho_unico [OF lista_heap_correto [OF nn, of d c] m']
  have 3: "dijkstra_lista_heap g d c = Km r" .
  from menor_caminho_unico [OF lista_simples_correto [OF nn, of d c] m']
  have 4: "dijkstra_lista_simples g d c = Km r" .
  show ?thesis using le r 2 3 4 by blast
qed

lemma denso_caminhos_do_centro:
  assumes c: "c \<in> set centros_distribuicao"
  shows "caminho (suc_matriz matriz0 idx0 nodes0) c l x \<Longrightarrow>
           (x = c \<and> l = 0) \<or>
           (x \<in> set cidades_destino \<and> l = the (map_of from_distancias (c, x)))"
proof (induction rule: caminho.induct)
  case caminho_vazio
  show ?case by simp
next
  case (caminho_passo l v x w)
  from caminho_passo.IH show ?case
  proof
    assume "v = c \<and> l = 0"
    with caminho_passo.hyps(2) c matriz0_linhas
    have "(x, w) \<in> set (map (\<lambda>d. (d, the (map_of from_distancias (c, d)))) cidades_destino)"
      unfolding linhas_da_matriz_def by auto
    with \<open>v = c \<and> l = 0\<close> show ?thesis by auto
  next
    assume "v \<in> set cidades_destino \<and> l = the (map_of from_distancias (c, v))"
    with matriz0_linhas have "suc_matriz matriz0 idx0 nodes0 v = []"
      unfolding linhas_da_matriz_def by blast
    with caminho_passo.hyps(2) show ?thesis by simp
  qed
qed

lemma denso_caminhos_do_destino:
  assumes d: "d \<in> set cidades_destino"
  shows "caminho (suc_matriz matriz0 idx0 nodes0) d l x \<Longrightarrow> x = d \<and> l = 0"
proof (induction rule: caminho.induct)
  case caminho_vazio
  show ?case by simp
next
  case (caminho_passo l v x w)
  with d matriz0_linhas have "suc_matriz matriz0 idx0 nodes0 v = []"
    unfolding linhas_da_matriz_def by blast
  with caminho_passo.hyps(2) show ?case by simp
qed

lemma denso_ida:
  assumes t: "((c, d), w) \<in> set from_distancias"
  shows "menor_caminho (suc_matriz matriz0 idx0 nodes0) c d (Km w)"
proof -
  from t tabela0_coerente have c: "c \<in> set centros_distribuicao"
    and d: "d \<in> set cidades_destino" and cd: "c \<noteq> d"
    and w: "map_of from_distancias (c, d) = Some w"
    unfolding tabela_coerente_def by blast+
  from c matriz0_linhas d w have "(d, w) \<in> set (suc_matriz matriz0 idx0 nodes0 c)"
    unfolding linhas_da_matriz_def by force
  then have "caminho (suc_matriz matriz0 idx0 nodes0) c w d" by (rule caminho_aresta)
  moreover have "w \<le> l" if "caminho (suc_matriz matriz0 idx0 nodes0) c l d" for l
    using denso_caminhos_do_centro [OF c that] cd w by auto
  ultimately show ?thesis unfolding menor_caminho_def by simp
qed

lemma denso_volta:
  assumes t: "((c, d), w) \<in> set from_distancias"
  shows "menor_caminho (suc_matriz matriz0 idx0 nodes0) d c Infinito"
proof -
  from t tabela0_coerente have d: "d \<in> set cidades_destino" and cd: "c \<noteq> d"
    unfolding tabela_coerente_def by blast+
  have "\<not> caminho (suc_matriz matriz0 idx0 nodes0) d l c" for l
    using denso_caminhos_do_destino [OF d, of l c] cd by auto
  then show ?thesis unfolding menor_caminho_def by simp
qed

lemma denso_resultados:
  assumes t: "((c, d), w) \<in> set from_distancias"
  shows "dijkstra_matriz_heap matriz0 idx0 nodes0 c d = Inr (Km w)"
    and "dijkstra_matriz_simples matriz0 idx0 nodes0 c d = Inr (Km w)"
    and "dijkstra_matriz_heap matriz0 idx0 nodes0 d c = Inr Infinito"
    and "dijkstra_matriz_simples matriz0 idx0 nodes0 d c = Inr Infinito"
proof -
  from t tabela0_coerente nodes0_todos have c: "c \<in> set nodes0" and d: "d \<in> set nodes0"
    unfolding tabela_coerente_def by blast+
  note ok = sem_erro_bem_formada [OF matriz0_bem_formada]
  note nn = matriz0_nao_negativa
  from matriz_heap_correto [OF nn ok subset_refl c, of d]
    menor_caminho_unico [OF _ denso_ida [OF t]]
  show "dijkstra_matriz_heap matriz0 idx0 nodes0 c d = Inr (Km w)" by auto
  from matriz_simples_correto [OF nn ok subset_refl c, of d]
    menor_caminho_unico [OF _ denso_ida [OF t]]
  show "dijkstra_matriz_simples matriz0 idx0 nodes0 c d = Inr (Km w)" by auto
  from matriz_heap_correto [OF nn ok subset_refl d, of c]
    menor_caminho_unico [OF _ denso_volta [OF t]]
  show "dijkstra_matriz_heap matriz0 idx0 nodes0 d c = Inr Infinito" by auto
  from matriz_simples_correto [OF nn ok subset_refl d, of c]
    menor_caminho_unico [OF _ denso_volta [OF t]]
  show "dijkstra_matriz_simples matriz0 idx0 nodes0 d c = Inr Infinito" by auto
qed

lemma sp_rj_tabela: "((sao_paulo, rio_de_janeiro), 450) \<in> set from_distancias"
  by code_simp

text \<open>
  Claim C3, as stated, fails where it says that for every recorded pair the matrix
  strategies agree with the adjacency-list strategies on the centre-to-destination query:
  the adjacency-list graph has the reverse edges too, so a route through other cities can
  be shorter than the recorded distance. From \<open>belem\<close> to \<open>curitiba\<close> the matrix
  strategies return the recorded 3800, the adjacency-list strategies 3300
  (by \<open>goiania\<close> and \<open>sao_paulo\<close>: 2000 + 900 + 400).
\<close>

theorem esparso_mais_curto_counterexample:
  "((belem, curitiba), 3800) \<in> set from_distancias \<and>
   dijkstra_lista_heap grafo0 belem curitiba = Km 3300 \<and>
   dijkstra_lista_simples grafo0 belem curitiba = Km 3300 \<and>
   dijkstra_matriz_heap matriz0 idx0 nodes0 belem curitiba = Inr (Km 3800) \<and>
   dijkstra_matriz_simples matriz0 idx0 nodes0 belem curitiba = Inr (Km 3800)"
  by code_simp

text \<open>
  Claim C3, amended. The adjacency-list graph of \<open>gerar_lista_adjacencia\<close> has every
  edge in both directions, the matrix of \<open>gerar_matriz_adjacencia\<close> only the edges from a
  centre to a destination. For every recorded pair (centre, destination) the matrix
  strategies return the recorded distance on the centre-to-destination query and
  \<open>Infinito\<close> on the reverse query, and the adjacency-list strategies return one and the
  same finite distance in both directions, which is at most the recorded one. Between
  \<open>sao_paulo\<close> and \<open>rio_de_janeiro\<close> that distance is 450 in both directions; in the
  matrix the forward query gives 450 and the reverse query \<open>Infinito\<close>.
\<close>

theorem esparso_bidirecional_denso_so_ida:
  "grafo0 = gerar_lista_adjacencia from_distancias \<and>
   gerar_matriz_adjacencia centros_distribuicao cidades_destino from_distancias =
     Inr (matriz0, idx0, nodes0) \<and>
   (\<forall>((c, d), w) \<in> set from_distancias.
      (\<exists>r. r \<le> w \<and>
         dijkstra_lista_heap grafo0 c d = Km r \<and> dijkstra_lista_simples grafo0 c d = Km r \<and>
         dijkstra_lista_heap grafo0 d c = Km r \<and> dijkstra_lista_simples grafo0 d c = Km r) \<and>
      dijkstra_matriz_heap matriz0 idx0 nodes0 c d = Inr (Km w) \<and>
      dijkstra_matriz_simples matriz0 idx0 nodes0 c d = Inr (Km w) \<and>
      dijkstra_matriz_heap matriz0 idx0 nodes0 d c = Inr Infinito \<and>
      dijkstra_matriz_simples matriz0 idx0 nodes0 d c = Inr Infinito) \<and>
   dijkstra_lista_heap grafo0 sao_paulo rio_de_janeiro = Km 450 \<and>
   dijkstra_lista_simples grafo0 sao_paulo rio_de_janeiro = Km 450 \<and>
   dijkstra_lista_heap grafo0 rio_de_janeiro sao_paulo = Km 450 \<and>
   dijkstra_lista_simples grafo0 rio_de_janeiro sao_paulo = Km 450 \<and>
   dijkstra_matriz_heap matriz0 idx0 nodes0 sao_paulo rio_de_janeiro = Inr (Km 450) \<and>
   dijkstra_matriz_simples matriz0 idx0 nodes0 sao_paulo rio_de_janeiro = Inr (Km 450) \<and>
   dijkstra_matriz_heap matriz0 idx0 nodes0 rio_de_janeiro sao_paulo = Inr Infinito \<and>
   dijkstra_matriz_simples matriz0 idx0 nodes0 rio_de_janeiro sao_paulo = Inr Infinito"
proof -
  have geral: "\<forall>((c, d), w) \<in> set from_distancias.
      (\<exists>r. r \<le> w \<and>
         dijkstra_lista_heap grafo0 c d = Km r \<and> dijkstra_lista_simples grafo0 c d = Km r \<and>
         dijkstra_lista_heap grafo0 d c = Km r \<and> dijkstra_lista_simples grafo0 d c = Km r) \<and>
      dijkstra_matriz_heap matriz0 idx0 nodes0 c d = Inr (Km w) \<and>
      dijkstra_matriz_simples matriz0 idx0 nodes0 c d = Inr (Km w) \<and>
      dijkstra_matriz_heap matriz0 idx0 nodes0 d c = Inr Infinito \<and>
      dijkstra_matriz_simples matriz0 idx0 nodes0 d c = Inr Infinito"
  proof (intro ballI, clarify)
    fix c d w assume t: "((c, d), w) \<in> set from_distancias"
    with tabela0_coerente have "(d, w) \<in> set (grafo_get grafo0 c)"
      unfolding tabela_coerente_def by blast
    from esparso_ida_e_volta [OF grafo0_nao_negativo grafo0_simetrico this]
      denso_resultados [OF t]
    show "(\<exists>r. r \<le> w \<and>
         dijkstra_lista_heap grafo0 c d = Km r \<and> dijkstra_lista_simples grafo0 c d = Km r \<and>
         dijkstra_lista_heap grafo0 d c = Km r \<and> dijkstra_lista_simples grafo0 d c = Km r) \<and>
      dijkstra_matriz_heap matriz0 idx0 nodes0 c d = Inr (Km w) \<and>
      dijkstra_matriz_simples matriz0 idx0 nodes0 c d = Inr (Km w) \<and>
      dijkstra_matriz_heap matriz0 idx0 nodes0 d c = Inr Infinito \<and>
      dijkstra_matriz_simples matriz0 idx0 nodes0 d c = Inr Infinito"
      by blast
  qed
  from geral sp_rj_tabela obtain r where
    r: "dijkstra_lista_heap grafo0 sao_paulo rio_de_janeiro = Km r"
       "dijkstra_lista_simples grafo0 sao_paulo rio_de_janeiro = Km r"
       "dijkstra_lista_heap grafo0 rio_de_janeiro sao_paulo = Km r"
       "dijkstra_lista_simples grafo0 rio_de_janeiro sao_paulo = Km r"
    by blast
  from r(1) lista_heap_sp_rj have "r = 450" by simp
  note esparso = r [unfolded this]
  note denso = denso_resultados [OF sp_rj_tabela]
  show ?thesis
    using geral esparso denso gerar_matriz_adjacencia0 grafo0_def by blast
qed

theorem esparso_bidirecional_denso_so_ida_witness:
  "((florianopolis, vitoria), 500) \<in> set from_distancias \<and>
   dijkstra_matriz_heap matriz0 idx0 nodes0 florianopolis vitoria = Inr (Km 500) \<and>
   dijkstra_matriz_simples matriz0 idx0 nodes0 vitoria florianopolis = Inr Infinito \<and>
   (\<exists>r. r \<le> 500 \<and> dijkstra_lista_heap grafo0 florianopolis vitoria = Km r \<and>
        dijkstra_lista_simples grafo0 vitoria florianopolis = Km r)"
proof -
  have t: "((florianopolis, vitoria), 500) \<in> set from_distancias" by code_simp
  with esparso_bidirecional_denso_so_ida show ?thesis by blast
qed

section \<open>Scaling leaves its argument alone\<close>
















chapter \<open>Allocation of deliveries\<close>

section \<open>Route planning\<close>

text \<open>
  \<^verbatim>\<open>Entrega\<close> and \<^verbatim>\<open>Caminhao\<close> with the field types of their docstrings. The
  allocator mutates the trucks in place; here it returns the updated list. A truck object
  held in \<^verbatim>\<open>melhor\<close> is its position in \<^verbatim>\<open>caminhoes\<close>. Weights and capacities
  are \<^verbatim>\<open>int\<close>s, so \<^verbatim>\<open>capacidade -= peso\<close> is exact. The travel time
  \<^verbatim>\<open>distancia / 50\<close> is a \<^verbatim>\<open>float\<close> (\<open>float_div\<close>), and so is the result of
  \<^verbatim>\<open>horas_disponiveis -= dist_sel / 50\<close> (\<open>float_sub\<close>): both are rounded. The three
  comparisons of the acceptance test and \<^verbatim>\<open>distancia < melhor[2]\<close> are exact.
\<close>

record 'n entrega =
  destino :: 'n
  peso :: int
  prazo :: int

record caminhao =
  id_caminhao :: int
  capacidade :: int
  horas_disponiveis :: real

text \<open>
  \<^verbatim>\<open>melhor\<close> is \<^verbatim>\<open>(None, None, inf)\<close> until a combination is accepted and
  \<^verbatim>\<open>(cam, centro, distancia)\<close> with a finite distance afterwards: \<open>None\<close> and
  \<open>Some (i, centro, distancia)\<close>. \<open>melhor_dist\<close> is \<^verbatim>\<open>melhor[2]\<close>.
\<close>

type_synonym 'n melhor = "(nat \<times> 'n \<times> real) option"

type_synonym 'n perna = "'n \<times> 'n \<times> real"

type_synonym 'n rotas = "int \<rightharpoonup> 'n perna list"

definition melhor_dist :: "'n melhor \<Rightarrow> distancia" where
  "melhor_dist melhor = (case melhor of None \<Rightarrow> Infinito | Some (i, centro, d) \<Rightarrow> Km d)"

fun menor_que :: "distancia \<Rightarrow> distancia \<Rightarrow> bool" where
  "menor_que (Km a) (Km b) = (a < b)"
| "menor_que (Km a) Infinito = True"
| "menor_que Infinito b = False"

definition testar_caminhao ::
  "'n entrega \<Rightarrow> 'n \<Rightarrow> real \<Rightarrow> 'n melhor \<Rightarrow> nat \<times> caminhao \<Rightarrow> 'n melhor" where
  "testar_caminhao entrega centro distancia melhor ic =
     (case ic of (i, cam) \<Rightarrow>
        let horas_viagem = float_div distancia 50 in
        if capacidade cam \<ge> peso entrega \<and>
           horas_disponiveis cam \<ge> horas_viagem \<and>
           horas_viagem \<le> real_of_int (prazo entrega)
        then (if menor_que (Km distancia) (melhor_dist melhor)
              then Some (i, centro, distancia) else melhor)
        else melhor)"

definition testar_centro ::
  "('n \<Rightarrow> 'n \<Rightarrow> distancia) \<Rightarrow> caminhao list \<Rightarrow> 'n entrega \<Rightarrow> 'n melhor \<Rightarrow> 'n \<Rightarrow> 'n melhor" where
  "testar_centro buscar caminhoes entrega melhor centro =
     (case buscar centro (destino entrega) of
        Infinito \<Rightarrow> melhor
      | Km distancia \<Rightarrow>
          foldl (testar_caminhao entrega centro distancia) melhor (enumerate 0 caminhoes))"

definition buscar_melhor ::
  "('n \<Rightarrow> 'n \<Rightarrow> distancia) \<Rightarrow> caminhao list \<Rightarrow> 'n list \<Rightarrow> 'n entrega \<Rightarrow> 'n melhor" where
  "buscar_melhor buscar caminhoes centros entrega =
     foldl (testar_centro buscar caminhoes entrega) None centros"

definition debitar :: "caminhao list \<Rightarrow> 'n entrega \<Rightarrow> 'n melhor \<Rightarrow> caminhao list" where
  "debitar caminhoes entrega melhor =
     (case melhor of
        None \<Rightarrow> caminhoes
      | Some (i, centro_sel, dist_sel) \<Rightarrow>
          caminhoes[i := (caminhoes ! i)
            \<lparr>capacidade := capacidade (caminhoes ! i) - peso entrega,
             horas_disponiveis :=
               float_sub (horas_disponiveis (caminhoes ! i)) (float_div dist_sel 50)\<rparr>])"

definition rota_de :: "'n rotas \<Rightarrow> int \<Rightarrow> 'n perna list" where
  "rota_de rotas k = (case rotas k of None \<Rightarrow> [] | Some r \<Rightarrow> r)"

type_synonym 'n estado = "caminhao list \<times> 'n rotas \<times> 'n entrega list"

definition alocar ::
  "('n \<Rightarrow> 'n \<Rightarrow> distancia) \<Rightarrow> 'n list \<Rightarrow> 'n estado \<Rightarrow> 'n entrega \<Rightarrow> 'n estado" where
  "alocar buscar centros est entrega =
     (case est of (caminhoes, rotas, nao_alocadas) \<Rightarrow>
        let melhor = buscar_melhor buscar caminhoes centros entrega in
        case melhor of
          Some (i, centro_sel, dist_sel) \<Rightarrow>
            (debitar caminhoes entrega melhor,
             rotas(id_caminhao (caminhoes ! i) \<mapsto>
               rota_de rotas (id_caminhao (caminhoes ! i)) @
                 [(centro_sel, destino entrega, dist_sel)]),
             nao_alocadas)
        | None \<Rightarrow> (caminhoes, rotas, nao_alocadas @ [entrega]))"

definition rotas_vazias :: "caminhao list \<Rightarrow> 'n rotas" where
  "rotas_vazias caminhoes = map_of (map (\<lambda>c. (id_caminhao c, [])) caminhoes)"

definition executar ::
  "('n \<Rightarrow> 'n \<Rightarrow> distancia) \<Rightarrow> 'n list \<Rightarrow> caminhao list \<Rightarrow> 'n entrega list \<Rightarrow> 'n estado" where
  "executar buscar centros caminhoes ordenadas =
     foldl (alocar buscar centros) (caminhoes, rotas_vazias caminhoes, []) ordenadas"

definition planejar_rotas ::
  "'n entrega list \<Rightarrow> caminhao list \<Rightarrow> 'n list \<Rightarrow> ('n \<Rightarrow> 'n \<Rightarrow> distancia) \<Rightarrow> 'n estado" where
  "planejar_rotas entregas caminhoes centros buscar =
     executar buscar centros caminhoes (sort_key prazo entregas)"

text \<open>
  The decisions of a run, one per delivery in processing order: the delivery and the
  \<^verbatim>\<open>melhor\<close> found for it with the trucks as they were at that moment.
\<close>

fun decisoes ::
  "('n \<Rightarrow> 'n \<Rightarrow> distancia) \<Rightarrow> 'n list \<Rightarrow> caminhao list \<Rightarrow> 'n entrega list
     \<Rightarrow> ('n entrega \<times> 'n melhor) list" where
  "decisoes buscar centros caminhoes [] = []"
| "decisoes buscar centros caminhoes (e # es) =
     (e, buscar_melhor buscar caminhoes centros e) #
     decisoes buscar centros
       (debitar caminhoes e (buscar_melhor buscar caminhoes centros e)) es"

definition atribuidas :: "nat \<Rightarrow> ('n entrega \<times> 'n melhor) list \<Rightarrow> ('n entrega \<times> 'n \<times> real) list" where
  "atribuidas i registro =
     concat (map (\<lambda>(e, m). case m of
                     None \<Rightarrow> []
                   | Some (j, centro, d) \<Rightarrow> if j = i then [(e, centro, d)] else [])
                 registro)"

definition sem_caminhao :: "('n entrega \<times> 'n melhor) list \<Rightarrow> 'n entrega list" where
  "sem_caminhao registro = map fst (filter (\<lambda>(e, m). m = None) registro)"

definition perna :: "'n entrega \<times> 'n \<times> real \<Rightarrow> 'n perna" where
  "perna x = (case x of (e, centro, d) \<Rightarrow> (centro, destino e, d))"

text \<open>The accepted combinations, as the specification words them.\<close>

definition aceita :: "caminhao \<Rightarrow> 'n entrega \<Rightarrow> real \<Rightarrow> bool" where
  "aceita cam e d =
     (capacidade cam \<ge> peso e \<and> horas_disponiveis cam \<ge> float_div d 50 \<and>
      float_div d 50 \<le> real_of_int (prazo e))"

definition candidatos ::
  "('n \<Rightarrow> 'n \<Rightarrow> distancia) \<Rightarrow> caminhao list \<Rightarrow> 'n list \<Rightarrow> 'n entrega \<Rightarrow> (nat \<times> 'n \<times> real) list" where
  "candidatos buscar caminhoes centros e =
     concat (map (\<lambda>centro.
       case buscar centro (destino e) of
         Infinito \<Rightarrow> []
       | Km d \<Rightarrow> map (\<lambda>(i, cam). (i, centro, d))
                   (filter (\<lambda>(i, cam). aceita cam e d) (enumerate 0 caminhoes))) centros)"

definition planejar_registro ::
  "'n entrega list \<Rightarrow> caminhao list \<Rightarrow> 'n list \<Rightarrow> ('n \<Rightarrow> 'n \<Rightarrow> distancia)
     \<Rightarrow> ('n entrega \<times> 'n melhor) list" where
  "planejar_registro entregas caminhoes centros buscar =
     decisoes buscar centros caminhoes (sort_key prazo entregas)"

definition escolher :: "'n melhor \<Rightarrow> nat \<times> 'n \<times> real \<Rightarrow> 'n melhor" where
  "escolher melhor x =
     (if menor_que (Km (snd (snd x))) (melhor_dist melhor) then Some x else melhor)"

text \<open>
  The two scenarios of the specification: a delivery of weight 100 with a deadline of one
  hour whose destination is 100 km (two hours) away, and two deliveries with deadlines 10
  and 20 for a single truck that has room for one of them.
\<close>

definition entrega_urgente :: "string entrega" where
  "entrega_urgente = \<lparr>destino = ''d'', peso = 100, prazo = 1\<rparr>"

definition entrega_prazo10 :: "string entrega" where
  "entrega_prazo10 = \<lparr>destino = ''d'', peso = 60, prazo = 10\<rparr>"

definition entrega_prazo20 :: "string entrega" where
  "entrega_prazo20 = \<lparr>destino = ''d'', peso = 50, prazo = 20\<rparr>"

definition caminhao_unico :: caminhao where
  "caminhao_unico = \<lparr>id_caminhao = 7, capacidade = 100, horas_disponiveis = 40\<rparr>"

definition buscar_100 :: "string \<Rightarrow> string \<Rightarrow> distancia" where
  "buscar_100 c d = (if c = ''c'' \<and> d = ''d'' then Km 100 else Infinito)"

text \<open>
  Views of a run used to state its properties: the trucks after the debits of a list
  of decisions, the route map after recording their legs, the deliveries a list of
  decisions gives to truck \<open>i\<close> (or to the trucks whose identifier is \<open>k\<close>), and the
  deliveries it leaves without a truck.
\<close>

definition registrar :: "int list \<Rightarrow> 'n rotas \<Rightarrow> ('n entrega \<times> 'n melhor) list \<Rightarrow> 'n rotas" where
  "registrar ids rotas registro =
     foldl (\<lambda>r (e, m). case m of
              None \<Rightarrow> r
            | Some (i, centro, d) \<Rightarrow>
                r(ids ! i \<mapsto> rota_de r (ids ! i) @ [(centro, destino e, d)]))
           rotas registro"

definition atribuidas_id ::
  "int \<Rightarrow> int list \<Rightarrow> ('n entrega \<times> 'n melhor) list \<Rightarrow> ('n entrega \<times> 'n \<times> real) list" where
  "atribuidas_id k ids registro =
     concat (map (\<lambda>(e, m). case m of
                     None \<Rightarrow> []
                   | Some (j, centro, d) \<Rightarrow> if ids ! j = k then [(e, centro, d)] else [])
                 registro)"

definition debitar_todas :: "caminhao list \<Rightarrow> ('n entrega \<times> 'n melhor) list \<Rightarrow> caminhao list" where
  "debitar_todas caminhoes registro = foldl (\<lambda>c (e, m). debitar c e m) caminhoes registro"

definition indices_validos :: "nat \<Rightarrow> ('n entrega \<times> 'n melhor) list \<Rightarrow> bool" where
  "indices_validos n registro =
     (\<forall>(e, m) \<in> set registro. case m of None \<Rightarrow> True | Some (j, centro, d) \<Rightarrow> j < n)"

definition saldo_nao_negativo :: "caminhao list \<Rightarrow> bool" where
  "saldo_nao_negativo caminhoes =
     (\<forall>c \<in> set caminhoes. 0 \<le> capacidade c \<and> 0 \<le> horas_disponiveis c)"

text \<open>
  The hours a truck has left after the legs of the distances \<open>kms\<close>, in this order: the
  travel time of each leg is subtracted in turn, each difference being rounded.
\<close>

definition horas_apos :: "real \<Rightarrow> real list \<Rightarrow> real" where
  "horas_apos horas kms = foldl (\<lambda>h km. float_sub h (float_div km 50)) horas kms"

text \<open>
  A truck with 11 hours and three deliveries, in the order of their deadlines, to
  destinations that the only centre reaches in 127, 287 and 136 km.
\<close>

definition caminhao_11h :: caminhao where
  "caminhao_11h = \<lparr>id_caminhao = 1, capacidade = 1000, horas_disponiveis = 11\<rparr>"

definition entregas_11h :: "string entrega list" where
  "entregas_11h =
     [\<lparr>destino = ''d1'', peso = 100, prazo = 12\<rparr>,
      \<lparr>destino = ''d2'', peso = 100, prazo = 13\<rparr>,
      \<lparr>destino = ''d3'', peso = 100, prazo = 14\<rparr>]"

definition buscar_11h :: "string \<Rightarrow> string \<Rightarrow> distancia" where
  "buscar_11h c d =
     (if c \<noteq> ''c'' then Infinito
      else if d = ''d1'' then Km 127
      else if d = ''d2'' then Km 287
      else if d = ''d3'' then Km 136
      else Infinito)"

section \<open>Properties of the selection and of a run\<close>

lemma testar_caminhao_passo:
  "testar_caminhao e centro d m (i, cam) =
     (if aceita cam e d then escolher m (i, centro, d) else m)"
  by (simp add: testar_caminhao_def escolher_def aceita_def Let_def)

lemma testar_caminhoes_escolher:
  "foldl (testar_caminhao e centro d) m ics =
     foldl escolher m
       (map (\<lambda>(i, cam). (i, centro, d)) (filter (\<lambda>(i, cam). aceita cam e d) ics))"
proof (induction ics arbitrary: m)
  case Nil
  show ?case by simp
next
  case (Cons ic ics)
  obtain i cam where ic: "ic = (i, cam)" by (cases ic)
  show ?case unfolding ic using Cons.IH by (simp add: testar_caminhao_passo)
qed

lemma testar_centros_escolher:
  "foldl (testar_centro buscar caminhoes e) m centros =
     foldl escolher m (candidatos buscar caminhoes centros e)"
proof (induction centros arbitrary: m)
  case Nil
  show ?case by (simp add: candidatos_def)
next
  case (Cons c cs)
  have "candidatos buscar caminhoes (c # cs) e =
          (case buscar c (destino e) of
             Infinito \<Rightarrow> []
           | Km d \<Rightarrow> map (\<lambda>(i, cam). (i, c, d))
                       (filter (\<lambda>(i, cam). aceita cam e d) (enumerate 0 caminhoes))) @
          candidatos buscar caminhoes cs e"
    by (simp add: candidatos_def)
  then show ?case
    using Cons.IH
    by (cases "buscar c (destino e)")
       (simp_all add: testar_centro_def testar_caminhoes_escolher)
qed

lemma escolher_min_key:
  "foldl escolher (Some m) xs = Some (min_key_aux (\<lambda>x. snd (snd x)) m xs)"
  by (induction xs arbitrary: m) (auto simp: escolher_def melhor_dist_def split: prod.splits)

lemma buscar_melhor_candidatos:
  "buscar_melhor buscar caminhoes centros e =
     (case candidatos buscar caminhoes centros e of
        [] \<Rightarrow> None
      | x # xs \<Rightarrow> Some (min_key_aux (\<lambda>x. snd (snd x)) x xs))"
proof (cases "candidatos buscar caminhoes centros e")
  case Nil
  then show ?thesis
    unfolding buscar_melhor_def testar_centros_escolher by simp
next
  case (Cons x xs)
  have "foldl escolher None (x # xs) = foldl escolher (Some x) xs"
    by (simp add: escolher_def melhor_dist_def)
  then show ?thesis
    unfolding buscar_melhor_def testar_centros_escolher Cons by (simp add: escolher_min_key)
qed

lemma buscar_melhor_primeiro_minimo:
  assumes "candidatos buscar caminhoes centros e \<noteq> []"
  shows "\<exists>pre i centro d post.
           buscar_melhor buscar caminhoes centros e = Some (i, centro, d) \<and>
           candidatos buscar caminhoes centros e = pre @ (i, centro, d) # post \<and>
           (\<forall>x \<in> set pre. d < snd (snd x)) \<and> (\<forall>x \<in> set post. d \<le> snd (snd x))"
proof -
  obtain x xs where c: "candidatos buscar caminhoes centros e = x # xs"
    using assms by (cases "candidatos buscar caminhoes centros e") auto
  obtain i centro d where r: "min_key_aux (\<lambda>x. snd (snd x)) x xs = (i, centro, d)"
    by (metis prod_cases3)
  from min_key_aux_primeiro [of x xs "\<lambda>x. snd (snd x)"] obtain pre post
    where "x # xs = pre @ (i, centro, d) # post"
      "\<forall>y \<in> set pre. d < snd (snd y)" "\<forall>y \<in> set post. d \<le> snd (snd y)"
    unfolding r by auto
  moreover have "buscar_melhor buscar caminhoes centros e = Some (i, centro, d)"
    unfolding buscar_melhor_candidatos c using r by simp
  ultimately show ?thesis unfolding c by blast
qed

lemma candidatos_elem:
  assumes "(i, centro, d) \<in> set (candidatos buscar caminhoes centros e)"
  shows "i < length caminhoes \<and> centro \<in> set centros \<and>
         buscar centro (destino e) = Km d \<and> aceita (caminhoes ! i) e d"
  using assms unfolding candidatos_def
  by (auto split: distancia.splits simp: in_set_enumerate_eq)

lemma buscar_melhor_Some:
  assumes "buscar_melhor buscar caminhoes centros e = Some (i, centro, d)"
  shows "i < length caminhoes \<and> centro \<in> set centros \<and>
         buscar centro (destino e) = Km d \<and> aceita (caminhoes ! i) e d"
proof -
  have ne: "candidatos buscar caminhoes centros e \<noteq> []"
    using assms unfolding buscar_melhor_candidatos by (auto split: list.splits)
  from buscar_melhor_primeiro_minimo [OF ne] assms
  have "(i, centro, d) \<in> set (candidatos buscar caminhoes centros e)" by auto
  then show ?thesis by (rule candidatos_elem)
qed

lemma length_debitar [simp]: "length (debitar cams e m) = length cams"
  by (auto simp: debitar_def split: option.splits)

lemma ids_debitar [simp]: "map id_caminhao (debitar cams e m) = map id_caminhao cams"
proof (cases m)
  case None
  then show ?thesis by (simp add: debitar_def)
next
  case (Some x)
  obtain i c d where x: "x = (i, c, d)" by (cases x)
  show ?thesis
    unfolding Some x debitar_def
    by (simp add: map_update) (metis list_update_id nth_map list_update_beyond not_le length_map)
qed

lemma debitar_todas_Cons:
  "debitar_todas cams ((e, m) # registro) = debitar_todas (debitar cams e m) registro"
  by (simp add: debitar_todas_def)

lemma registrar_Cons_None: "registrar ids rotas ((e, None) # registro) = registrar ids rotas registro"
  by (simp add: registrar_def)

lemma registrar_Cons_Some:
  "registrar ids rotas ((e, Some (i, c, d)) # registro) =
     registrar ids (rotas(ids ! i \<mapsto> rota_de rotas (ids ! i) @ [(c, destino e, d)])) registro"
  by (simp add: registrar_def)

lemma sem_caminhao_Cons_None: "sem_caminhao ((e, None) # registro) = e # sem_caminhao registro"
  by (simp add: sem_caminhao_def)

lemma sem_caminhao_Cons_Some: "sem_caminhao ((e, Some x) # registro) = sem_caminhao registro"
  by (simp add: sem_caminhao_def)

lemma executar_registro:
  "foldl (alocar b cs) (cams, rotas, nao) es =
     (debitar_todas cams (decisoes b cs cams es),
      registrar (map id_caminhao cams) rotas (decisoes b cs cams es),
      nao @ sem_caminhao (decisoes b cs cams es))"
proof (induction es arbitrary: cams rotas nao)
  case Nil
  show ?case by (simp add: debitar_todas_def registrar_def sem_caminhao_def)
next
  case (Cons e es)
  show ?case
  proof (cases "buscar_melhor b cams cs e")
    case None
    have step: "foldl (alocar b cs) (cams, rotas, nao) (e # es) =
                  foldl (alocar b cs) (cams, rotas, nao @ [e]) es"
      by (simp add: alocar_def None)
    have dec: "decisoes b cs cams (e # es) = (e, None) # decisoes b cs cams es"
      by (simp add: None debitar_def)
    show ?thesis
      unfolding step dec Cons.IH debitar_todas_Cons registrar_Cons_None sem_caminhao_Cons_None
      by (simp add: debitar_def)
  next
    case (Some x)
    obtain i c d where x: "x = (i, c, d)" by (cases x)
    from buscar_melhor_Some [OF Some [unfolded x]] have i: "i < length cams" by simp
    let ?cams' = "debitar cams e (Some (i, c, d))"
    let ?k = "id_caminhao (cams ! i)"
    have step: "foldl (alocar b cs) (cams, rotas, nao) (e # es) =
                  foldl (alocar b cs)
                    (?cams', rotas(?k \<mapsto> rota_de rotas ?k @ [(c, destino e, d)]), nao) es"
      by (simp add: alocar_def Some x)
    have dec: "decisoes b cs cams (e # es) = (e, Some (i, c, d)) # decisoes b cs ?cams' es"
      by (simp add: Some x)
    have k: "map id_caminhao cams ! i = ?k" using i by simp
    show ?thesis
      unfolding step dec Cons.IH debitar_todas_Cons registrar_Cons_Some sem_caminhao_Cons_Some
        ids_debitar k ..
  qed
qed

lemma rota_registrar:
  "rota_de (registrar ids rotas registro) k =
     rota_de rotas k @ map perna (atribuidas_id k ids registro)"
proof (induction registro arbitrary: rotas)
  case Nil
  show ?case by (simp add: registrar_def atribuidas_id_def)
next
  case (Cons x xs)
  obtain e m where x: "x = (e, m)" by (cases x)
  show ?case
  proof (cases m)
    case None
    then show ?thesis
      using Cons.IH [of rotas] unfolding x by (simp add: registrar_def atribuidas_id_def)
  next
    case (Some y)
    obtain j c d where y: "y = (j, c, d)" by (cases y)
    let ?r = "rotas(ids ! j \<mapsto> rota_de rotas (ids ! j) @ [(c, destino e, d)])"
    have r: "registrar ids rotas (x # xs) = registrar ids ?r xs"
      unfolding x Some y by (simp add: registrar_def)
    have a: "atribuidas_id k ids (x # xs) =
               (if ids ! j = k then [(e, c, d)] else []) @ atribuidas_id k ids xs"
      unfolding x Some y by (simp add: atribuidas_id_def)
    have h: "rota_de ?r k = rota_de rotas k @ map perna (if ids ! j = k then [(e, c, d)] else [])"
      by (simp add: rota_de_def perna_def)
    show ?thesis unfolding r a Cons.IH h by simp
  qed
qed

lemma registrar_fora:
  assumes "indices_validos (length ids) registro" "k \<notin> set ids"
  shows "registrar ids rotas registro k = rotas k"
  using assms(1)
proof (induction registro arbitrary: rotas)
  case Nil
  show ?case by (simp add: registrar_def)
next
  case (Cons x xs)
  obtain e m where x: "x = (e, m)" by (cases x)
  from Cons.prems have v: "indices_validos (length ids) xs"
    by (simp add: indices_validos_def)
  show ?case
  proof (cases m)
    case None
    then show ?thesis using Cons.IH [OF v, of rotas] unfolding x by (simp add: registrar_def)
  next
    case (Some y)
    obtain j c d where y: "y = (j, c, d)" by (cases y)
    from Cons.prems have "j < length ids" unfolding x Some y by (simp add: indices_validos_def)
    then have "ids ! j \<noteq> k" using assms(2) by (metis nth_mem)
    let ?r = "rotas(ids ! j \<mapsto> rota_de rotas (ids ! j) @ [(c, destino e, d)])"
    have r: "registrar ids rotas (x # xs) = registrar ids ?r xs"
      unfolding x Some y by (simp add: registrar_def)
    show ?thesis unfolding r Cons.IH [OF v] using \<open>ids ! j \<noteq> k\<close> by simp
  qed
qed

lemma atribuidas_id_distinct:
  assumes "distinct ids" "i < length ids" "indices_validos (length ids) registro"
  shows "atribuidas_id (ids ! i) ids registro = atribuidas i registro"
  using assms(3)
proof (induction registro)
  case Nil
  show ?case by (simp add: atribuidas_id_def atribuidas_def)
next
  case (Cons x xs)
  obtain e m where x: "x = (e, m)" by (cases x)
  from Cons.prems have v: "indices_validos (length ids) xs"
    by (simp add: indices_validos_def)
  show ?case
  proof (cases m)
    case None
    then show ?thesis using Cons.IH [OF v] unfolding x
      by (simp add: atribuidas_id_def atribuidas_def)
  next
    case (Some y)
    obtain j c d where y: "y = (j, c, d)" by (cases y)
    from Cons.prems have "j < length ids" unfolding x Some y by (simp add: indices_validos_def)
    then have "(ids ! j = ids ! i) = (j = i)"
      using assms(1,2) by (simp add: nth_eq_iff_index_eq)
    then show ?thesis using Cons.IH [OF v] unfolding x Some y
      by (simp add: atribuidas_id_def atribuidas_def)
  qed
qed

lemma decisoes_indices: "indices_validos (length cams) (decisoes b cs cams es)"
proof (induction es arbitrary: cams)
  case Nil
  show ?case by (simp add: indices_validos_def)
next
  case (Cons e es)
  have "case buscar_melhor b cams cs e of None \<Rightarrow> True | Some (j, centro, d) \<Rightarrow> j < length cams"
    using buscar_melhor_Some [of b cams cs e] by (auto split: option.splits)
  then show ?case
    using Cons.IH [of "debitar cams e (buscar_melhor b cams cs e)"]
    by (simp add: indices_validos_def)
qed

lemma map_fst_decisoes: "map fst (decisoes b cs cams es) = es"
  by (induction es arbitrary: cams) simp_all

lemma atribuidas_Cons_None: "atribuidas i ((e, None) # registro) = atribuidas i registro"
  by (simp add: atribuidas_def)

lemma atribuidas_Cons_Some:
  "atribuidas i ((e, Some (j, c, d)) # registro) =
     (if j = i then [(e, c, d)] else []) @ atribuidas i registro"
  by (simp add: atribuidas_def)

lemma debitar_nth:
  assumes "i < length cams"
  shows "capacidade (debitar cams e (Some (j, c, d)) ! i) =
           capacidade (cams ! i) - (if j = i then peso e else 0)"
    and "horas_disponiveis (debitar cams e (Some (j, c, d)) ! i) =
           (if j = i then float_sub (horas_disponiveis (cams ! i)) (float_div d 50)
            else horas_disponiveis (cams ! i))"
  using assms by (simp_all add: debitar_def nth_list_update)

lemma capacidade_debitar_todas:
  "i < length cams \<Longrightarrow>
     capacidade (debitar_todas cams registro ! i) =
       capacidade (cams ! i) - (\<Sum>x\<leftarrow>atribuidas i registro. peso (fst x))"
proof (induction registro arbitrary: cams)
  case Nil
  show ?case by (simp add: debitar_todas_def atribuidas_def)
next
  case (Cons x xs)
  obtain e m where x: "x = (e, m)" by (cases x)
  show ?case
  proof (cases m)
    case None
    have "debitar cams e None = cams" by (simp add: debitar_def)
    then show ?thesis
      using Cons.IH [OF Cons.prems] unfolding x None debitar_todas_Cons atribuidas_Cons_None
      by simp
  next
    case (Some y)
    obtain j c d where y: "y = (j, c, d)" by (cases y)
    have i': "i < length (debitar cams e (Some (j, c, d)))" using Cons.prems by simp
    show ?thesis
      unfolding x Some y debitar_todas_Cons atribuidas_Cons_Some Cons.IH [OF i']
        debitar_nth(1) [OF Cons.prems]
      by simp
  qed
qed

lemma horas_apos_Cons:
  "horas_apos h (km # kms) = horas_apos (float_sub h (float_div km 50)) kms"
  by (simp add: horas_apos_def)

lemma horas_debitar_todas:
  "i < length cams \<Longrightarrow>
     horas_disponiveis (debitar_todas cams registro ! i) =
       horas_apos (horas_disponiveis (cams ! i)) (map (\<lambda>x. snd (snd x)) (atribuidas i registro))"
proof (induction registro arbitrary: cams)
  case Nil
  show ?case by (simp add: debitar_todas_def atribuidas_def horas_apos_def)
next
  case (Cons x xs)
  obtain e m where x: "x = (e, m)" by (cases x)
  show ?case
  proof (cases m)
    case None
    have "debitar cams e None = cams" by (simp add: debitar_def)
    then show ?thesis
      using Cons.IH [OF Cons.prems] unfolding x None debitar_todas_Cons atribuidas_Cons_None
      by simp
  next
    case (Some y)
    obtain j c d where y: "y = (j, c, d)" by (cases y)
    have i': "i < length (debitar cams e (Some (j, c, d)))" using Cons.prems by simp
    show ?thesis
      unfolding x Some y debitar_todas_Cons atribuidas_Cons_Some Cons.IH [OF i']
        debitar_nth(2) [OF Cons.prems]
      by (simp add: horas_apos_Cons)
  qed
qed

lemma length_debitar_todas: "length (debitar_todas cams registro) = length cams"
proof (induction registro arbitrary: cams)
  case Nil
  show ?case by (simp add: debitar_todas_def)
next
  case (Cons x xs)
  obtain e m where x: "x = (e, m)" by (cases x)
  show ?case unfolding x debitar_todas_Cons Cons.IH by simp
qed

lemma debitar_saldo:
  assumes "saldo_nao_negativo cams"
  shows "saldo_nao_negativo (debitar cams e (buscar_melhor b cams cs e))"
proof (cases "buscar_melhor b cams cs e")
  case None
  then show ?thesis using assms by (simp add: debitar_def)
next
  case (Some x)
  obtain i c d where x: "x = (i, c, d)" by (cases x)
  from buscar_melhor_Some [OF Some [unfolded x]]
  have i: "i < length cams" and ac: "aceita (cams ! i) e d" by simp_all
  let ?novo = "(cams ! i)\<lparr>capacidade := capacidade (cams ! i) - peso e,
                  horas_disponiveis :=
                    float_sub (horas_disponiveis (cams ! i)) (float_div d 50)\<rparr>"
  have "0 \<le> horas_disponiveis (cams ! i) - float_div d 50"
    using ac by (simp add: aceita_def)
  then have "0 \<le> float_sub (horas_disponiveis (cams ! i)) (float_div d 50)"
    unfolding float_sub_def by (rule arredondar_nonneg)
  then have novo: "0 \<le> capacidade ?novo \<and> 0 \<le> horas_disponiveis ?novo"
    using ac by (simp add: aceita_def)
  have "set (cams[i := ?novo]) \<subseteq> insert ?novo (set cams)"
    by (rule set_update_subset_insert)
  with novo assms have "saldo_nao_negativo (cams[i := ?novo])"
    unfolding saldo_nao_negativo_def by blast
  then show ?thesis unfolding Some x debitar_def by simp
qed

lemma decisoes_saldo:
  "saldo_nao_negativo cams \<Longrightarrow>
     saldo_nao_negativo (debitar_todas cams (decisoes b cs cams es))"
proof (induction es arbitrary: cams)
  case Nil
  then show ?case by (simp add: debitar_todas_def)
next
  case (Cons e es)
  from Cons.IH [OF debitar_saldo [OF Cons.prems, of e b cs]] show ?case
    by (simp add: debitar_todas_Cons)
qed

lemma km_pernas:
  "map (\<lambda>(centro, dst, km). km) (map perna xs) = map (\<lambda>x. snd (snd x)) xs"
  by (induction xs) (auto simp: perna_def)

lemma particao_registro:
  "indices_validos n registro \<Longrightarrow>
     mset (map fst registro) =
       mset (sem_caminhao registro) + (\<Sum>i<n. mset (map fst (atribuidas i registro)))"
proof (induction registro)
  case Nil
  show ?case by (simp add: sem_caminhao_def atribuidas_def)
next
  case (Cons x xs)
  obtain e m where x: "x = (e, m)" by (cases x)
  from Cons.prems have v: "indices_validos n xs" by (simp add: indices_validos_def)
  show ?case
  proof (cases m)
    case None
    show ?thesis
      unfolding x None sem_caminhao_Cons_None atribuidas_Cons_None
      using Cons.IH [OF v] by simp
  next
    case (Some y)
    obtain j c d where y: "y = (j, c, d)" by (cases y)
    from Cons.prems have j: "j < n" unfolding x Some y by (simp add: indices_validos_def)
    have "(\<Sum>i<n. mset (map fst ((if j = i then [(e, c, d)] else []) @ atribuidas i xs))) =
          (\<Sum>i<n. (if j = i then {#e#} else {#}) + mset (map fst (atribuidas i xs)))"
      by (intro sum.cong) auto
    also have "\<dots> = (\<Sum>i<n. if j = i then {#e#} else {#}) +
                     (\<Sum>i<n. mset (map fst (atribuidas i xs)))"
      by (rule sum.distrib)
    also have "(\<Sum>i<n. if j = i then {#e#} else {#}) = {#e#}"
      using j by (simp add: sum.delta)
    finally show ?thesis
      unfolding x Some y sem_caminhao_Cons_Some atribuidas_Cons_Some
      using Cons.IH [OF v] by simp
  qed
qed

lemma decisoes_nth:
  "j < length es \<Longrightarrow>
     decisoes b cs cams es ! j =
       (es ! j, buscar_melhor b (debitar_todas cams (take j (decisoes b cs cams es))) cs (es ! j))"
proof (induction es arbitrary: cams j)
  case Nil
  then show ?case by simp
next
  case (Cons e es)
  show ?case
  proof (cases j)
    case 0
    then show ?thesis by (simp add: debitar_todas_def)
  next
    case (Suc j')
    with Cons.prems have "j' < length es" by simp
    from Cons.IH [OF this, of "debitar cams e (buscar_melhor b cams cs e)"]
    show ?thesis unfolding Suc by (simp add: debitar_todas_Cons)
  qed
qed

lemma rotas_vazias_fora: "k \<notin> id_caminhao ` set cams \<Longrightarrow> rotas_vazias cams k = None"
  unfolding rotas_vazias_def by (simp add: map_of_eq_None_iff image_image)

lemma rota_de_rotas_vazias: "rota_de (rotas_vazias cams) k = []"
  unfolding rota_de_def rotas_vazias_def
  by (auto split: option.splits dest: map_of_SomeD)

lemma executar_eq:
  "executar b cs cams es =
     (debitar_todas cams (decisoes b cs cams es),
      registrar (map id_caminhao cams) (rotas_vazias cams) (decisoes b cs cams es),
      sem_caminhao (decisoes b cs cams es))"
  unfolding executar_def executar_registro by simp

lemma rota_executar:
  assumes "distinct (map id_caminhao cams)" "i < length cams"
  shows "rota_de (registrar (map id_caminhao cams) (rotas_vazias cams) (decisoes b cs cams es))
           (id_caminhao (cams ! i)) = map perna (atribuidas i (decisoes b cs cams es))"
proof -
  have v: "indices_validos (length (map id_caminhao cams)) (decisoes b cs cams es)"
    using decisoes_indices [of cams b cs es] by simp
  have i': "i < length (map id_caminhao cams)" using assms(2) by simp
  have k: "id_caminhao (cams ! i) = map id_caminhao cams ! i" using assms(2) by simp
  show ?thesis
    unfolding k rota_registrar atribuidas_id_distinct [OF assms(1) i' v] rota_de_rotas_vazias
    by simp
qed

lemma cenario_urgente_sem_candidatos:
  "candidatos buscar_100 [caminhao_unico] [''c'', ''x''] entrega_urgente = []"
  by code_simp

lemma cenario_prazo10_candidatos:
  "candidatos buscar_100 [caminhao_unico] [''c'', ''x''] entrega_prazo10 = [(0, ''c'', 100)]"
  by code_simp

lemma cenario_hipoteses:
  "distinct (map id_caminhao [caminhao_unico])" "saldo_nao_negativo [caminhao_unico]"
  by (simp_all add: saldo_nao_negativo_def caminhao_unico_def)

lemma cenario_registro:
  "decisoes buscar_100 [''c'', ''x''] [caminhao_unico]
     (take 2 (sort_key prazo [entrega_prazo20, entrega_prazo10])) =
     [(entrega_prazo10, Some (0, ''c'', 100)), (entrega_prazo20, None)]"
  by code_simp

lemma cenario_registro_final:
  "planejar_registro [entrega_prazo20, entrega_prazo10] [caminhao_unico] [''c'', ''x''] buscar_100 =
     [(entrega_prazo10, Some (0, ''c'', 100)), (entrega_prazo20, None)]"
  by code_simp

lemma cenario_horas: "horas_apos 40 [100] = 38"
  by code_simp

section \<open>Order of processing and choice of the combination\<close>

text \<open>
  Claim C4. \<open>planejar_rotas\<close> processes the deliveries in ascending order of deadline,
  deliveries of the same deadline in their input order; the decision for each delivery is
  \<open>buscar_melhor\<close> on the trucks as the earlier decisions left them. \<open>buscar_melhor\<close>
  returns nothing when no combination is accepted, and otherwise the first accepted
  combination of least distance in the order centres outside, trucks inside: its distance
  is strictly smaller than that of every accepted combination before it and at most that
  of every one after it. A combination \<open>(truck, centre)\<close> is accepted (\<open>candidatos\<close>,
  \<open>aceita\<close>) when the centre reaches the destination, the truck's remaining capacity is
  at least the weight, its remaining hours are at least the distance divided by 50 (the
  travel time, a double), and that travel time is at most the deadline.
\<close>

theorem planejar_rotas_ordem_e_escolha:
  "let registro = planejar_registro entregas caminhoes centros buscar;
       ordenadas = map fst registro
   in planejar_rotas entregas caminhoes centros buscar =
        (debitar_todas caminhoes registro,
         registrar (map id_caminhao caminhoes) (rotas_vazias caminhoes) registro,
         sem_caminhao registro) \<and>
      sorted (map prazo ordenadas) \<and>
      mset ordenadas = mset entregas \<and>
      (\<forall>k. filter (\<lambda>e. prazo e = k) ordenadas = filter (\<lambda>e. prazo e = k) entregas) \<and>
      (\<forall>j<length ordenadas.
         registro ! j =
           (ordenadas ! j,
            buscar_melhor buscar (debitar_todas caminhoes (take j registro)) centros
              (ordenadas ! j))) \<and>
      (\<forall>cams e.
         (candidatos buscar cams centros e = [] \<longrightarrow>
            buscar_melhor buscar cams centros e = None) \<and>
         (candidatos buscar cams centros e \<noteq> [] \<longrightarrow>
            (\<exists>pre i centro d post.
               buscar_melhor buscar cams centros e = Some (i, centro, d) \<and>
               candidatos buscar cams centros e = pre @ (i, centro, d) # post \<and>
               (\<forall>x \<in> set pre. d < snd (snd x)) \<and> (\<forall>x \<in> set post. d \<le> snd (snd x)))))"
proof -
  let ?ord = "sort_key prazo entregas"
  let ?reg = "decisoes buscar centros caminhoes ?ord"
  have ord: "map fst ?reg = ?ord" by (rule map_fst_decisoes)
  have 1: "planejar_rotas entregas caminhoes centros buscar =
        (debitar_todas caminhoes ?reg,
         registrar (map id_caminhao caminhoes) (rotas_vazias caminhoes) ?reg,
         sem_caminhao ?reg)"
    unfolding planejar_rotas_def by (rule executar_eq)
  have 2: "sorted (map prazo ?ord)" by simp
  have 3: "mset ?ord = mset entregas" by simp
  have 4: "\<forall>k. filter (\<lambda>e. prazo e = k) ?ord = filter (\<lambda>e. prazo e = k) entregas"
    by (simp add: sort_key_stable)
  have 5: "\<forall>j<length ?ord. ?reg ! j =
           (?ord ! j, buscar_melhor buscar (debitar_todas caminhoes (take j ?reg)) centros
              (?ord ! j))"
    using decisoes_nth [of _ ?ord buscar centros caminhoes] by blast
  have 6: "\<forall>cams e.
         (candidatos buscar cams centros e = [] \<longrightarrow>
            buscar_melhor buscar cams centros e = None) \<and>
         (candidatos buscar cams centros e \<noteq> [] \<longrightarrow>
            (\<exists>pre i centro d post.
               buscar_melhor buscar cams centros e = Some (i, centro, d) \<and>
               candidatos buscar cams centros e = pre @ (i, centro, d) # post \<and>
               (\<forall>x \<in> set pre. d < snd (snd x)) \<and> (\<forall>x \<in> set post. d \<le> snd (snd x))))"
    using buscar_melhor_primeiro_minimo [of buscar _ centros]
    by (auto simp: buscar_melhor_candidatos)
  show ?thesis
    unfolding Let_def planejar_registro_def ord using 1 2 3 4 5 6 by blast
qed

theorem planejar_rotas_ordem_e_escolha_witness:
  "candidatos buscar_100 [caminhao_unico] [''c'', ''x''] entrega_urgente = [] \<and>
   buscar_melhor buscar_100 [caminhao_unico] [''c'', ''x''] entrega_urgente = None \<and>
   candidatos buscar_100 [caminhao_unico] [''c'', ''x''] entrega_prazo10 \<noteq> [] \<and>
   buscar_melhor buscar_100 [caminhao_unico] [''c'', ''x''] entrega_prazo10 = Some (0, ''c'', 100) \<and>
   map fst (planejar_registro [entrega_prazo20, entrega_prazo10] [caminhao_unico] [''c'', ''x'']
              buscar_100) = [entrega_prazo10, entrega_prazo20]"
proof -
  note t = planejar_rotas_ordem_e_escolha
    [of "[entrega_prazo20, entrega_prazo10]" "[caminhao_unico]" "[''c'', ''x'']" buscar_100,
     unfolded Let_def]
  from t have sel: "\<forall>cams e.
         (candidatos buscar_100 cams [''c'', ''x''] e = [] \<longrightarrow>
            buscar_melhor buscar_100 cams [''c'', ''x''] e = None) \<and>
         (candidatos buscar_100 cams [''c'', ''x''] e \<noteq> [] \<longrightarrow>
            (\<exists>pre i centro d post.
               buscar_melhor buscar_100 cams [''c'', ''x''] e = Some (i, centro, d) \<and>
               candidatos buscar_100 cams [''c'', ''x''] e = pre @ (i, centro, d) # post \<and>
               (\<forall>x \<in> set pre. d < snd (snd x)) \<and> (\<forall>x \<in> set post. d \<le> snd (snd x))))"
    by blast
  have 1: "buscar_melhor buscar_100 [caminhao_unico] [''c'', ''x''] entrega_urgente = None"
    using sel cenario_urgente_sem_candidatos by blast
  have ne: "candidatos buscar_100 [caminhao_unico] [''c'', ''x''] entrega_prazo10 \<noteq> []"
    unfolding cenario_prazo10_candidatos by simp
  with sel obtain pre i centro d post where
    b: "buscar_melhor buscar_100 [caminhao_unico] [''c'', ''x''] entrega_prazo10 = Some (i, centro, d)"
    and c: "candidatos buscar_100 [caminhao_unico] [''c'', ''x''] entrega_prazo10 =
              pre @ (i, centro, d) # post"
    by blast
  from c have "(i, centro, d) = (0, ''c'', 100)"
    unfolding cenario_prazo10_candidatos by (cases pre) auto
  with b have 2: "buscar_melhor buscar_100 [caminhao_unico] [''c'', ''x''] entrega_prazo10 =
                    Some (0, ''c'', 100)" by simp
  from t have s: "sorted (map prazo (map fst (planejar_registro [entrega_prazo20, entrega_prazo10]
                     [caminhao_unico] [''c'', ''x''] buscar_100)))"
    and m: "mset (map fst (planejar_registro [entrega_prazo20, entrega_prazo10]
                     [caminhao_unico] [''c'', ''x''] buscar_100)) =
            mset [entrega_prazo20, entrega_prazo10]"
    by blast+
  have 3: "map fst (planejar_registro [entrega_prazo20, entrega_prazo10] [caminhao_unico]
             [''c'', ''x''] buscar_100) = [entrega_prazo10, entrega_prazo20]"
    by code_simp
  show ?thesis using 1 2 3 ne cenario_urgente_sem_candidatos by simp
qed

section \<open>Capacity and hours of a truck\<close>

text \<open>
  Claim C5, as stated, fails for the hours, because the travel times and the remaining
  hours are doubles. The truck of 11 hours takes the three deliveries, at 127, 287 and
  136 km: the travel times are the doubles nearest to 2.54, 5.74 and 2.72, the remaining
  hours go 11, 8.46, 2.7200000000000006 and end at \<open>2 ^ -51\<close>. The sum of the three
  travel times is \<open>11 + 2 ^ -51\<close>, and \<open>11 + 2 ^ -49\<close> (11.000000000000002) when added
  as Python adds them: more than the 11 hours the truck had, and the remaining hours are
  not 11 minus that sum, which is negative.
\<close>

theorem horas_arredondadas_counterexample:
  "distinct (map id_caminhao [caminhao_11h]) \<and> saldo_nao_negativo [caminhao_11h] \<and>
   (case planejar_rotas entregas_11h [caminhao_11h] [''c''] buscar_11h of
      (caminhoes', rotas', nao_alocadas) \<Rightarrow>
        rota_de rotas' 1 = [(''c'', ''d1'', 127), (''c'', ''d2'', 287), (''c'', ''d3'', 136)] \<and>
        nao_alocadas = [] \<and>
        horas_disponiveis (caminhoes' ! 0) = 1 / 2 ^ 51 \<and>
        (\<Sum>(centro, dst, km)\<leftarrow>rota_de rotas' 1. float_div km 50) = 11 + 1 / 2 ^ 51 \<and>
        horas_disponiveis caminhao_11h <
          (\<Sum>(centro, dst, km)\<leftarrow>rota_de rotas' 1. float_div km 50) \<and>
        float_add (float_add (float_div 127 50) (float_div 287 50)) (float_div 136 50) =
          11 + 1 / 2 ^ 49)"
  by code_simp

text \<open>
  Claim C5, amended. Trucks have distinct identifiers and start with non-negative capacity
  and hours. After any number \<open>n\<close> of processed deliveries (all of them for
  \<open>n = length entregas\<close>, which is the result of \<open>planejar_rotas\<close>), for every truck: its
  route list holds the legs of the deliveries assigned to it; its remaining capacity is
  the initial one minus the weights of these deliveries, is non-negative, and so the sum
  of the weights is at most the initial capacity; its remaining hours are what is left of
  the initial hours after the travel time of each leg, a double, was subtracted in turn
  in double arithmetic (\<open>horas_apos\<close>), and they are non-negative; and each delivery
  assigned to the truck had a weight of at most the capacity, and a travel time of at most
  the hours, that the truck had left when the delivery was assigned.
\<close>

theorem saldo_dos_caminhoes:
  assumes "distinct (map id_caminhao caminhoes)" "saldo_nao_negativo caminhoes"
    and "i < length caminhoes"
  shows
    "planejar_rotas entregas caminhoes centros buscar =
       executar buscar centros caminhoes (take (length entregas) (sort_key prazo entregas)) \<and>
     (case executar buscar centros caminhoes (take n (sort_key prazo entregas)) of
        (caminhoes', rotas', nao_alocadas) \<Rightarrow>
          let registro = decisoes buscar centros caminhoes (take n (sort_key prazo entregas));
              rota = rota_de rotas' (id_caminhao (caminhoes ! i))
          in rota = map perna (atribuidas i registro) \<and>
             capacidade (caminhoes' ! i) =
               capacidade (caminhoes ! i) - (\<Sum>x\<leftarrow>atribuidas i registro. peso (fst x)) \<and>
             horas_disponiveis (caminhoes' ! i) =
               horas_apos (horas_disponiveis (caminhoes ! i))
                 (map (\<lambda>(centro, dst, km). km) rota) \<and>
             0 \<le> capacidade (caminhoes' ! i) \<and> 0 \<le> horas_disponiveis (caminhoes' ! i) \<and>
             (\<Sum>x\<leftarrow>atribuidas i registro. peso (fst x)) \<le> capacidade (caminhoes ! i) \<and>
             (\<forall>j<length registro. \<forall>e centro km.
                registro ! j = (e, Some (i, centro, km)) \<longrightarrow>
                  peso e \<le> capacidade (debitar_todas caminhoes (take j registro) ! i) \<and>
                  float_div km 50 \<le>
                    horas_disponiveis (debitar_todas caminhoes (take j registro) ! i)))"
proof -
  let ?es = "take n (sort_key prazo entregas)"
  let ?reg = "decisoes buscar centros caminhoes ?es"
  let ?cams' = "debitar_todas caminhoes ?reg"
  let ?rotas' = "registrar (map id_caminhao caminhoes) (rotas_vazias caminhoes) ?reg"
  let ?rota = "rota_de ?rotas' (id_caminhao (caminhoes ! i))"
  have rota: "?rota = map perna (atribuidas i ?reg)"
    by (rule rota_executar [OF assms(1,3)])
  have cap: "capacidade (?cams' ! i) =
               capacidade (caminhoes ! i) - (\<Sum>x\<leftarrow>atribuidas i ?reg. peso (fst x))"
    by (rule capacidade_debitar_todas [OF assms(3)])
  have hor: "horas_disponiveis (?cams' ! i) =
               horas_apos (horas_disponiveis (caminhoes ! i))
                 (map (\<lambda>(centro, dst, km). km) ?rota)"
    unfolding rota km_pernas by (rule horas_debitar_todas [OF assms(3)])
  have "?cams' ! i \<in> set ?cams'" using assms(3) by (simp add: length_debitar_todas)
  with decisoes_saldo [OF assms(2), of buscar centros ?es]
  have nn: "0 \<le> capacidade (?cams' ! i)" "0 \<le> horas_disponiveis (?cams' ! i)"
    unfolding saldo_nao_negativo_def by blast+
  have le: "(\<Sum>x\<leftarrow>atribuidas i ?reg. peso (fst x)) \<le> capacidade (caminhoes ! i)"
    using nn cap by simp
  have len: "length ?reg = length ?es"
    using map_fst_decisoes [of buscar centros caminhoes ?es] by (metis length_map)
  have cada: "peso e \<le> capacidade (debitar_todas caminhoes (take j ?reg) ! i) \<and>
              float_div km 50 \<le> horas_disponiveis (debitar_todas caminhoes (take j ?reg) ! i)"
    if j: "j < length ?reg" and r: "?reg ! j = (e, Some (i, centro, km))" for j e centro km
  proof -
    from j have "j < length ?es" unfolding len .
    from decisoes_nth [OF this, of buscar centros caminhoes] r
    have "buscar_melhor buscar (debitar_todas caminhoes (take j ?reg)) centros (?es ! j) =
            Some (i, centro, km)" and e: "e = ?es ! j"
      by simp_all
    from buscar_melhor_Some [OF this(1)]
    have "aceita (debitar_todas caminhoes (take j ?reg) ! i) e km" unfolding e by simp
    then show ?thesis unfolding aceita_def by simp
  qed
  have fin: "planejar_rotas entregas caminhoes centros buscar =
       executar buscar centros caminhoes (take (length entregas) (sort_key prazo entregas))"
    unfolding planejar_rotas_def by simp
  show ?thesis
    unfolding executar_eq [of buscar centros caminhoes ?es] prod.case Let_def
    using fin rota cap hor nn le cada by blast
qed

theorem saldo_dos_caminhoes_witness:
  "distinct (map id_caminhao [caminhao_unico]) \<and> saldo_nao_negativo [caminhao_unico] \<and>
   (0::nat) < length [caminhao_unico] \<and>
   (case executar buscar_100 [''c'', ''x''] [caminhao_unico]
           (take 2 (sort_key prazo [entrega_prazo20, entrega_prazo10])) of
      (caminhoes', rotas', nao_alocadas) \<Rightarrow>
        rota_de rotas' 7 = [(''c'', ''d'', 100)] \<and>
        capacidade (caminhoes' ! 0) = 40 \<and> horas_disponiveis (caminhoes' ! 0) = 38)"
proof -
  have i: "(0::nat) < length [caminhao_unico]" by simp
  note t = saldo_dos_caminhoes [OF cenario_hipoteses i,
      of "[entrega_prazo20, entrega_prazo10]" "[''c'', ''x'']" buscar_100 2,
      unfolded Let_def cenario_registro]
  have a: "atribuidas 0 [(entrega_prazo10, Some (0, ''c'', 100 :: real)), (entrega_prazo20, None)] =
             [(entrega_prazo10, ''c'', 100)]"
    by (simp add: atribuidas_def)
  have k: "id_caminhao ([caminhao_unico] ! 0) = 7" by (simp add: caminhao_unico_def)
  show ?thesis
    using t cenario_hipoteses unfolding a k
    by (auto simp: perna_def entrega_prazo10_def caminhao_unico_def cenario_horas
             split: prod.splits)
qed

section \<open>Every delivery in exactly one list\<close>

text \<open>
  Claim C6. Trucks have distinct identifiers. The run takes one decision per input
  delivery; the unallocated list holds exactly the deliveries decided without a truck, the
  route list of truck \<open>i\<close> exactly the legs of the deliveries decided for truck \<open>i\<close>, and
  there is no other route list. So the input deliveries are, as a multiset, the
  unallocated ones plus those of each truck's route list, each exactly once, and the
  lengths add up.
\<close>

theorem particao_das_entregas:
  assumes "distinct (map id_caminhao caminhoes)"
  shows
    "case planejar_rotas entregas caminhoes centros buscar of
       (caminhoes', rotas', nao_alocadas) \<Rightarrow>
         let registro = planejar_registro entregas caminhoes centros buscar in
           map fst registro = sort_key prazo entregas \<and>
           mset (map fst registro) = mset entregas \<and>
           indices_validos (length caminhoes) registro \<and>
           nao_alocadas = sem_caminhao registro \<and>
           (\<forall>i<length caminhoes.
              rota_de rotas' (id_caminhao (caminhoes ! i)) = map perna (atribuidas i registro)) \<and>
           (\<forall>k. k \<notin> id_caminhao ` set caminhoes \<longrightarrow> rotas' k = None) \<and>
           mset entregas =
             mset nao_alocadas + (\<Sum>i<length caminhoes. mset (map fst (atribuidas i registro))) \<and>
           length entregas =
             length nao_alocadas +
             (\<Sum>i<length caminhoes. length (rota_de rotas' (id_caminhao (caminhoes ! i))))"
proof -
  let ?ord = "sort_key prazo entregas"
  let ?reg = "decisoes buscar centros caminhoes ?ord"
  let ?rotas' = "registrar (map id_caminhao caminhoes) (rotas_vazias caminhoes) ?reg"
  have 1: "map fst ?reg = ?ord" by (rule map_fst_decisoes)
  then have 2: "mset (map fst ?reg) = mset entregas" by simp
  have v: "indices_validos (length caminhoes) ?reg" by (rule decisoes_indices)
  have 4: "\<forall>i<length caminhoes.
              rota_de ?rotas' (id_caminhao (caminhoes ! i)) = map perna (atribuidas i ?reg)"
    using rota_executar [OF assms] by blast
  have 5: "\<forall>k. k \<notin> id_caminhao ` set caminhoes \<longrightarrow> ?rotas' k = None"
  proof (intro allI impI)
    fix k assume k: "k \<notin> id_caminhao ` set caminhoes"
    then have "k \<notin> set (map id_caminhao caminhoes)" by simp
    from registrar_fora [OF _ this, of ?reg "rotas_vazias caminhoes"] v
    show "?rotas' k = None" using rotas_vazias_fora [OF k] by simp
  qed
  have 6: "mset entregas =
             mset (sem_caminhao ?reg) + (\<Sum>i<length caminhoes. mset (map fst (atribuidas i ?reg)))"
    using particao_registro [OF v] 2 by simp
  have "size (mset entregas) =
          size (mset (sem_caminhao ?reg) +
                (\<Sum>i<length caminhoes. mset (map fst (atribuidas i ?reg))))"
    using 6 by simp
  then have "length entregas =
               length (sem_caminhao ?reg) + (\<Sum>i<length caminhoes. length (atribuidas i ?reg))"
    by simp
  moreover have "(\<Sum>i<length caminhoes. length (atribuidas i ?reg)) =
          (\<Sum>i<length caminhoes. length (rota_de ?rotas' (id_caminhao (caminhoes ! i))))"
    using 4 by (intro sum.cong) simp_all
  ultimately have 7: "length entregas =
             length (sem_caminhao ?reg) +
             (\<Sum>i<length caminhoes. length (rota_de ?rotas' (id_caminhao (caminhoes ! i))))"
    by simp
  show ?thesis
    unfolding planejar_rotas_def executar_eq prod.case Let_def planejar_registro_def
    using 1 2 v 4 5 6 7 by blast
qed

theorem particao_das_entregas_witness:
  "distinct (map id_caminhao [caminhao_unico]) \<and>
   (case planejar_rotas [entrega_prazo20, entrega_prazo10] [caminhao_unico] [''c'', ''x'']
           buscar_100 of
      (caminhoes', rotas', nao_alocadas) \<Rightarrow>
        nao_alocadas = [entrega_prazo20] \<and> rota_de rotas' 7 = [(''c'', ''d'', 100)] \<and>
        rotas' 8 = None)"
proof -
  obtain cs rs ns where r: "planejar_rotas [entrega_prazo20, entrega_prazo10] [caminhao_unico]
      [''c'', ''x''] buscar_100 = (cs, rs, ns)"
    by (metis prod_cases3)
  note t = particao_das_entregas [OF cenario_hipoteses(1),
      of "[entrega_prazo20, entrega_prazo10]" "[''c'', ''x'']" buscar_100,
      unfolded Let_def cenario_registro_final r prod.case]
  have a: "atribuidas 0 [(entrega_prazo10, Some (0, ''c'', 100 :: real)), (entrega_prazo20, None)] =
             [(entrega_prazo10, ''c'', 100)]"
    by (simp add: atribuidas_def)
  have s: "sem_caminhao [(entrega_prazo10, Some (0, ''c'', 100 :: real)), (entrega_prazo20, None)] =
             [entrega_prazo20]"
    by (simp add: sem_caminhao_def)
  have k: "id_caminhao ([caminhao_unico] ! 0) = 7" "id_caminhao ` set [caminhao_unico] = {7}"
    by (simp_all add: caminhao_unico_def)
  from t have 1: "ns = [entrega_prazo20]" unfolding s by blast
  from t have "\<forall>i<length [caminhao_unico]. rota_de rs (id_caminhao ([caminhao_unico] ! i)) =
      map perna (atribuidas i
        [(entrega_prazo10, Some (0, ''c'', 100 :: real)), (entrega_prazo20, None)])"
    by blast
  then have "rota_de rs (id_caminhao ([caminhao_unico] ! 0)) =
      map perna (atribuidas 0
        [(entrega_prazo10, Some (0, ''c'', 100 :: real)), (entrega_prazo20, None)])"
    by simp
  then have 2: "rota_de rs 7 = [(''c'', ''d'', 100)]"
    unfolding a k by (simp add: perna_def entrega_prazo10_def)
  from t have "\<forall>k. k \<notin> id_caminhao ` set [caminhao_unico] \<longrightarrow> rs k = None" by blast
  then have 3: "rs 8 = None" unfolding k by simp
  show ?thesis unfolding r prod.case using 1 2 3 cenario_hipoteses(1) by simp
qed

end
